theory Spec2Isabelle
  imports Complex_Main "HOL-Library.AList" "HOL-Library.Sublist" "HOL-Library.Multiset"
begin

section \<open>Syntax trees\<close>

text \<open>
  Both variants of the analyser (\<^verbatim>\<open>astTest.py\<close> and \<^verbatim>\<open>ast2.py\<close>) work on the trees of
  Python's \<^verbatim>\<open>ast\<close> module. A tree node has a class (its type name) and an ordered list of
  named fields; a field holds a scalar, a node, or a list whose items are nodes or scalars.

  The two classes the analyser tests with \<^verbatim>\<open>isinstance\<close> are constructors of their own:
  \<^verbatim>\<open>ast.FunctionDef\<close> with the attributes the code reads (\<^verbatim>\<open>name\<close>, \<^verbatim>\<open>args\<close>, \<^verbatim>\<open>body\<close>)
  followed by its remaining fields (\<^verbatim>\<open>decorator_list\<close>, \<^verbatim>\<open>returns\<close>, \<^verbatim>\<open>type_comment\<close>, ...),
  and \<^verbatim>\<open>ast.ClassDef\<close> with \<^verbatim>\<open>name\<close> followed by its remaining fields (\<^verbatim>\<open>bases\<close>,
  \<^verbatim>\<open>keywords\<close>, \<^verbatim>\<open>body\<close>, \<^verbatim>\<open>decorator_list\<close>, ...). Every other class is a \<open>Node\<close> with its
  type name and fields.

  Scalars are the constants of a Python program: \<^verbatim>\<open>None\<close>, booleans, integers, finite floats
  (by their exact rational value), strings, bytes and \<^verbatim>\<open>Ellipsis\<close>. Complex constants and
  non-finite floats are outside the model.
\<close>

datatype leaf = LNone | LBool bool | LInt int | LFloat rat | LStr string | LBytes string | LEllipsis

datatype node =
    FunctionDef fdef
  | ClassDef cdef
  | Node string "(string \<times> field) list"
and fdef = FDef (fd_name: string) (fd_args: node) (fd_body: "node list")
                (fd_rest: "(string \<times> field) list")
and cdef = CDef (cd_name: string) (cd_rest: "(string \<times> field) list")
and field = Leaf leaf | Child node | Items "item list"
and item = ILeaf leaf | INode node

text \<open>\<^verbatim>\<open>type(node).__name__\<close>\<close>

fun type_name :: "node \<Rightarrow> string" where
  "type_name (FunctionDef d) = ''FunctionDef''"
| "type_name (ClassDef d) = ''ClassDef''"
| "type_name (Node t fs) = t"

text \<open>
  The nodes one field contributes to a loop of the form
  \<^verbatim>\<open>
  for field, value in ast.iter_fields(node):
      if isinstance(value, list):
          for item in value:
              if isinstance(item, ast.AST): visit(item)
      elif isinstance(value, ast.AST):
          visit(value)
  \<close>
  This is the loop of \<^verbatim>\<open>ASTHasher.visit\<close>, of \<^verbatim>\<open>NodeVisitor.generic_visit\<close> and of
  \<^verbatim>\<open>ast.iter_child_nodes\<close>: items of a list that are not nodes are skipped.
\<close>

fun field_nodes :: "field \<Rightarrow> node list" where
  "field_nodes (Child n) = [n]"
| "field_nodes (Items its) = concat (map (\<lambda>it. case it of INode n \<Rightarrow> [n] | ILeaf v \<Rightarrow> []) its)"
| "field_nodes (Leaf v) = []"

definition fields_nodes :: "(string \<times> field) list \<Rightarrow> node list" where
  "fields_nodes fs = concat (map (\<lambda>(k, v). field_nodes v) fs)"

fun iter_child_nodes :: "node \<Rightarrow> node list" where
  "iter_child_nodes (FunctionDef d) = fd_args d # fd_body d @ fields_nodes (fd_rest d)"
| "iter_child_nodes (ClassDef d) = fields_nodes (cd_rest d)"
| "iter_child_nodes (Node t fs) = fields_nodes fs"

lemma field_nodes_size: "sum_list (map size (field_nodes f)) \<le> size f"
proof (cases f)
  case (Items its)
  have "sum_list (map size (concat (map (\<lambda>it. case it of INode n \<Rightarrow> [n] | ILeaf v \<Rightarrow> []) its)))
        \<le> size_list size its"
    by (induction its) (auto split: item.splits)
  with Items show ?thesis by simp
qed simp_all

lemma fields_nodes_size:
  "sum_list (map size (fields_nodes fs)) \<le> size_list (size_prod (\<lambda>x. 0) size) fs"
proof (induction fs)
  case Nil
  show ?case by (simp add: fields_nodes_def)
next
  case (Cons p fs)
  obtain k v where p: "p = (k, v)" by (cases p)
  have "sum_list (map size (field_nodes v)) \<le> size v" by (rule field_nodes_size)
  with Cons p show ?case by (simp add: fields_nodes_def)
qed

lemma sum_list_size_le: "sum_list (map size ns) \<le> size_list size ns"
  by (induction ns) auto

lemma iter_child_nodes_size: "sum_list (map size (iter_child_nodes n)) < size n"
proof (cases n)
  case (FunctionDef d)
  obtain nm a b r where d: "d = FDef nm a b r" by (cases d)
  have "sum_list (map size b) \<le> size_list size b" by (rule sum_list_size_le)
  moreover have "sum_list (map size (fields_nodes r)) \<le> size_list (size_prod (\<lambda>x. 0) size) r"
    by (rule fields_nodes_size)
  ultimately show ?thesis using FunctionDef d by simp
next
  case (ClassDef d)
  obtain nm r where d: "d = CDef nm r" by (cases d)
  have "sum_list (map size (fields_nodes r)) \<le> size_list (size_prod (\<lambda>x. 0) size) r"
    by (rule fields_nodes_size)
  then show ?thesis using ClassDef d by simp
next
  case (Node t fs)
  have "sum_list (map size (fields_nodes fs)) \<le> size_list (size_prod (\<lambda>x. 0) size) fs"
    by (rule fields_nodes_size)
  then show ?thesis using Node by simp
qed

lemma child_size: "c \<in> set (iter_child_nodes n) \<Longrightarrow> size c < size n"
proof -
  assume "c \<in> set (iter_child_nodes n)"
  then have "size c \<le> sum_list (map size (iter_child_nodes n))"
    by (simp add: member_le_sum_list)
  with iter_child_nodes_size [of n] show ?thesis by simp
qed

lemma node_child_induct [case_names node]:
  assumes "\<And>n. (\<And>c. c \<in> set (iter_child_nodes n) \<Longrightarrow> P c) \<Longrightarrow> P n"
  shows "P n"
proof (induction n rule: measure_induct_rule [of size])
  case (less n)
  show ?case by (rule assms) (simp add: less child_size)
qed

section \<open>The structural hasher of astTest.py\<close>

text \<open>
  \<^verbatim>\<open>ASTHasher\<close> owns one \<^verbatim>\<open>hashlib.md5()\<close> object. \<^verbatim>\<open>visit\<close> feeds it the type name of the
  node, then visits the child nodes; the digests the recursive calls return are dropped.
  The state of the hash object is the text fed so far: \<open>visit_feed n h\<close> is that text after
  visiting \<open>n\<close> from the state \<open>h\<close>. The digest function of \<^verbatim>\<open>hashlib\<close> is a parameter
  \<open>md5\<close>, from the text fed to the hexadecimal digest. \<open>ASTHasher_visit\<close> is
  \<^verbatim>\<open>ASTHasher().visit(stmt)\<close>: a fresh hasher, and the digest it returns at the end.
\<close>

type_synonym digest = string

function visit_feed :: "node \<Rightarrow> string \<Rightarrow> string" where
  "visit_feed n h = fold visit_feed (iter_child_nodes n) (h @ type_name n)"
  by pat_completeness auto
termination
  by (relation "measure (\<lambda>(n, h). size n)") (auto simp: child_size)

declare visit_feed.simps [simp del]

definition ASTHasher_visit :: "(string \<Rightarrow> digest) \<Rightarrow> node \<Rightarrow> digest" where
  "ASTHasher_visit md5 n = md5 (visit_feed n [])"

section \<open>Body changes in astTest.py\<close>

record change_type =
  structural :: bool
  minor_edit :: bool
  rearrangement :: bool

text \<open>\<^verbatim>\<open>ChangeType()\<close>: every field at its default.\<close>

definition ChangeType :: change_type where
  "ChangeType = \<lparr>structural = False, minor_edit = False, rearrangement = False\<rparr>"

definition analyze_body_change :: "(string \<Rightarrow> digest) \<Rightarrow> node list \<Rightarrow> node list \<Rightarrow> change_type" where
  "analyze_body_change md5 old_body new_body =
     (let old_hashes = map (ASTHasher_visit md5) old_body;
          new_hashes = map (ASTHasher_visit md5) new_body
      in if old_hashes = new_hashes then ChangeType
         else let old_set = set old_hashes; new_set = set new_hashes
              in if card old_set \<noteq> card new_set then ChangeType\<lparr>structural := True\<rparr>
                 else if old_set \<noteq> new_set then ChangeType\<lparr>minor_edit := True\<rparr>
                 else ChangeType\<lparr>rearrangement := True\<rparr>)"

section \<open>Walking a tree\<close>

text \<open>
  \<^verbatim>\<open>ast.walk(node)\<close> yields the node and its descendants breadth first: it keeps a queue,
  takes the first node, appends that node's children, and yields it.
\<close>

function walk_queue :: "node list \<Rightarrow> node list" where
  "walk_queue [] = []"
| "walk_queue (n # todo) = n # walk_queue (todo @ iter_child_nodes n)"
  by pat_completeness auto
termination
proof (relation "measure (\<lambda>todo. sum_list (map size todo))")
  show "wf (measure (\<lambda>todo. sum_list (map size todo)))" by simp
next
  fix n :: node and todo :: "node list"
  show "(todo @ iter_child_nodes n, n # todo) \<in> measure (\<lambda>todo. sum_list (map size todo))"
    using iter_child_nodes_size [of n] by simp
qed

definition walk :: "node \<Rightarrow> node list" where
  "walk n = walk_queue [n]"

section \<open>The symbol tables\<close>

text \<open>
  A Python dictionary keeps its keys in insertion order, and storing under a key that is
  present replaces the value in place: an association list with \<open>AList.update\<close>.
  \<^verbatim>\<open>ASTVisitor\<close> has one dictionary of functions and one of classes.
  \<^verbatim>\<open>NodeVisitor.visit\<close> calls \<^verbatim>\<open>visit_FunctionDef\<close> on a \<^verbatim>\<open>FunctionDef\<close>,
  \<^verbatim>\<open>visit_ClassDef\<close> on a \<^verbatim>\<open>ClassDef\<close> and \<^verbatim>\<open>generic_visit\<close> on every other node; the
  two methods of the source store the node under its name and then call
  \<^verbatim>\<open>generic_visit\<close> themselves.
\<close>

record visitor =
  "functions" :: "(string \<times> fdef) list"
  classes :: "(string \<times> cdef) list"

definition ASTVisitor :: visitor where
  "ASTVisitor = \<lparr>functions = [], classes = []\<rparr>"

function visit :: "node \<Rightarrow> visitor \<Rightarrow> visitor" where
  "visit (FunctionDef d) v =
     fold visit (iter_child_nodes (FunctionDef d))
       (v\<lparr>functions := AList.update (fd_name d) d (functions v)\<rparr>)"
| "visit (ClassDef d) v =
     fold visit (iter_child_nodes (ClassDef d))
       (v\<lparr>classes := AList.update (cd_name d) d (classes v)\<rparr>)"
| "visit (Node t fs) v = fold visit (iter_child_nodes (Node t fs)) v"
  by pat_completeness auto
termination
  by (relation "measure (\<lambda>(n, v). size n)")
     (auto simp del: iter_child_nodes.simps node.size simp: child_size)

section \<open>Comparing two trees in astTest.py\<close>

text \<open>
  Python's \<^verbatim>\<open>==\<close> on two scalars: numbers (booleans included) are equal when their values
  are, so \<^verbatim>\<open>True == 1\<close> and \<^verbatim>\<open>1 == 1.0\<close>; a number never equals a string, bytes,
  \<^verbatim>\<open>None\<close> or \<^verbatim>\<open>Ellipsis\<close>, and a string never equals bytes.
\<close>

fun py_num :: "leaf \<Rightarrow> rat option" where
  "py_num (LBool b) = Some (if b then 1 else 0)"
| "py_num (LInt i) = Some (of_int i)"
| "py_num (LFloat r) = Some r"
| "py_num v = None"

definition py_eq :: "leaf \<Rightarrow> leaf \<Rightarrow> bool" where
  "py_eq x y = (case (py_num x, py_num y) of
                  (Some a, Some b) \<Rightarrow> a = b
                | (None, None) \<Rightarrow> x = y
                | _ \<Rightarrow> False)"

text \<open>
  \<^verbatim>\<open>_compare_ast_nodes\<close> answers False when the classes differ. Otherwise it runs through
  \<^verbatim>\<open>node1._fields\<close> and reads the field of the same name in both nodes; two nodes of one
  class have the same fields in the same order, so the two field lists are run through
  together (the model answers False where the names disagree). Two nodes are compared
  recursively, two lists by length and then item by item, and every other pair of values
  with \<^verbatim>\<open>!=\<close>: a node (which has no \<^verbatim>\<open>__eq__\<close>) or a list differs from every scalar.
\<close>

fun compare_ast_nodes :: "node \<Rightarrow> node \<Rightarrow> bool"
  and compare_node_lists :: "node list \<Rightarrow> node list \<Rightarrow> bool"
  and compare_fields :: "(string \<times> field) list \<Rightarrow> (string \<times> field) list \<Rightarrow> bool"
  and compare_values :: "field \<Rightarrow> field \<Rightarrow> bool"
  and compare_items :: "item list \<Rightarrow> item list \<Rightarrow> bool" where
  "compare_ast_nodes (FunctionDef (FDef n1 a1 b1 r1)) (FunctionDef (FDef n2 a2 b2 r2)) =
     (n1 = n2 \<and> compare_ast_nodes a1 a2
      \<and> length b1 = length b2 \<and> compare_node_lists b1 b2 \<and> compare_fields r1 r2)"
| "compare_ast_nodes (ClassDef (CDef n1 r1)) (ClassDef (CDef n2 r2)) =
     (n1 = n2 \<and> compare_fields r1 r2)"
| "compare_ast_nodes (Node t1 fs1) (Node t2 fs2) = (t1 = t2 \<and> compare_fields fs1 fs2)"
| "compare_ast_nodes n1 n2 = False"
| "compare_node_lists (x # xs) (y # ys) = (compare_ast_nodes x y \<and> compare_node_lists xs ys)"
| "compare_node_lists xs ys = True"
| "compare_fields [] [] = True"
| "compare_fields ((k1, v1) # fs1) ((k2, v2) # fs2) =
     (k1 = k2 \<and> compare_values v1 v2 \<and> compare_fields fs1 fs2)"
| "compare_fields fs1 fs2 = False"
| "compare_values (Child n1) (Child n2) = compare_ast_nodes n1 n2"
| "compare_values (Items xs) (Items ys) = (length xs = length ys \<and> compare_items xs ys)"
| "compare_values (Leaf x) (Leaf y) = py_eq x y"
| "compare_values v1 v2 = False"
| "compare_items (INode n1 # xs) (INode n2 # ys) = (compare_ast_nodes n1 n2 \<and> compare_items xs ys)"
| "compare_items (ILeaf x # xs) (ILeaf y # ys) = (py_eq x y \<and> compare_items xs ys)"
| "compare_items (x # xs) (y # ys) = False"
| "compare_items xs ys = True"

definition has_signature_change :: "fdef \<Rightarrow> fdef \<Rightarrow> bool" where
  "has_signature_change old_func new_func =
     (\<not> compare_ast_nodes (fd_args old_func) (fd_args new_func))"

text \<open>
  \<^verbatim>\<open>_has_nested_function_change\<close> collects the names of the function definitions that
  \<^verbatim>\<open>ast.walk\<close> yields, the function itself left out. A node has no \<^verbatim>\<open>__eq__\<close>, so
  \<^verbatim>\<open>node != old_func\<close> tests identity, and the only node of the walk that is the function
  itself is the first one.
\<close>

definition has_nested_function_change :: "fdef \<Rightarrow> fdef \<Rightarrow> bool" where
  "has_nested_function_change old_func new_func =
     (let old_nested = set [fd_name d. FunctionDef d \<leftarrow> tl (walk (FunctionDef old_func))];
          new_nested = set [fd_name d. FunctionDef d \<leftarrow> tl (walk (FunctionDef new_func))]
      in old_nested \<noteq> new_nested)"

section \<open>The analyser of astTest.py\<close>

record function_change =
  name :: string
  signature_change :: bool
  body_change :: change_type
  nested_function_change :: bool

record class_method_change =
  class_name :: string
  method_name :: string
  method_signature_change :: bool
  method_body_change :: change_type

record change_analysis =
  added_functions :: "string list"
  removed_functions :: "string list"
  function_changes :: "function_change list"
  class_method_changes :: "class_method_change list"

text \<open>
  The exceptions of the model: \<^verbatim>\<open>ast.parse\<close> rejecting a text, a dictionary read at a
  missing key, and the read of an attribute an object does not have.
\<close>

datatype error = SyntaxError | KeyError | AttributeError

definition getitem :: "(string \<times> 'a) list \<Rightarrow> string \<Rightarrow> error + 'a" where
  "getitem d k = (case map_of d k of None \<Rightarrow> Inl KeyError | Some v \<Rightarrow> Inr v)"

text \<open>
  A loop that appends to a list what each round produces; an exception in a round leaves
  the loop and the function.
\<close>

fun for_each :: "('a \<Rightarrow> error + 'b list) \<Rightarrow> 'a list \<Rightarrow> error + 'b list" where
  "for_each f [] = Inr []"
| "for_each f (x # xs) =
     (case f x of
        Inl e \<Rightarrow> Inl e
      | Inr ys \<Rightarrow> (case for_each f xs of Inl e \<Rightarrow> Inl e | Inr zs \<Rightarrow> Inr (ys @ zs)))"

text \<open>
  \<^verbatim>\<open>set(d1.keys()) & set(d2.keys())\<close> and \<^verbatim>\<open>set(d1.keys()) - set(d2.keys())\<close>, listed.
  Python iterates a set in an order of its own choosing; the model lists the keys in the
  order of the first dictionary. The keys of a dictionary are distinct, so no name is
  listed twice.
\<close>

definition keys_both :: "(string \<times> 'a) list \<Rightarrow> (string \<times> 'b) list \<Rightarrow> string list" where
  "keys_both d1 d2 = filter (\<lambda>k. k \<in> set (map fst d2)) (map fst d1)"

definition keys_minus :: "(string \<times> 'a) list \<Rightarrow> (string \<times> 'b) list \<Rightarrow> string list" where
  "keys_minus d1 d2 = filter (\<lambda>k. k \<notin> set (map fst d2)) (map fst d1)"

record analyzer =
  old_ast :: node
  new_ast :: node
  old_visitor :: visitor
  new_visitor :: visitor

text \<open>
  \<^verbatim>\<open>CodeChangeAnalyzer.__init__\<close>: both texts are parsed (\<^verbatim>\<open>ast.parse\<close> is the parameter
  \<open>parse\<close>), and a fresh visitor runs over each tree; \<open>analyzer_of\<close> is the object that
  results from two parsed trees.
\<close>

definition analyzer_of :: "node \<Rightarrow> node \<Rightarrow> analyzer" where
  "analyzer_of old_tree new_tree =
     \<lparr>old_ast = old_tree, new_ast = new_tree,
      old_visitor = visit old_tree ASTVisitor,
      new_visitor = visit new_tree ASTVisitor\<rparr>"

definition CodeChangeAnalyzer :: "(string \<Rightarrow> error + node) \<Rightarrow> string \<Rightarrow> string \<Rightarrow> error + analyzer" where
  "CodeChangeAnalyzer parse old_code new_code =
     (case parse old_code of
        Inl e \<Rightarrow> Inl e
      | Inr old_tree \<Rightarrow>
          (case parse new_code of
             Inl e \<Rightarrow> Inl e
           | Inr new_tree \<Rightarrow> Inr (analyzer_of old_tree new_tree)))"

definition analyze_function_change ::
  "(string \<Rightarrow> digest) \<Rightarrow> analyzer \<Rightarrow> string \<Rightarrow> error + function_change" where
  "analyze_function_change md5 a func_name =
     (case getitem (functions (old_visitor a)) func_name of
        Inl e \<Rightarrow> Inl e
      | Inr old_func \<Rightarrow>
          (case getitem (functions (new_visitor a)) func_name of
             Inl e \<Rightarrow> Inl e
           | Inr new_func \<Rightarrow>
               Inr \<lparr>name = func_name,
                    signature_change = has_signature_change old_func new_func,
                    body_change = analyze_body_change md5 (fd_body old_func) (fd_body new_func),
                    nested_function_change = has_nested_function_change old_func new_func\<rparr>))"

text \<open>
  The dictionary comprehension
  \<^verbatim>\<open>{node.name: node for node in ast.walk(cls) if isinstance(node, ast.FunctionDef)}\<close>:
  every function definition below the class, however deep, the later of two with one
  name replacing the earlier.
\<close>

definition class_methods :: "cdef \<Rightarrow> (string \<times> fdef) list" where
  "class_methods c =
     fold (\<lambda>d. AList.update (fd_name d) d) [d. FunctionDef d \<leftarrow> walk (ClassDef c)] []"

text \<open>
  \<open>analyze_method_change\<close> is one round of the inner loop of
  \<^verbatim>\<open>_analyze_class_method_changes\<close>: it yields the record of the method when the
  signature or the body changed, and nothing otherwise.
\<close>

definition analyze_method_change ::
  "(string \<Rightarrow> digest) \<Rightarrow> string \<Rightarrow> (string \<times> fdef) list \<Rightarrow> (string \<times> fdef) list \<Rightarrow> string
     \<Rightarrow> error + class_method_change list" where
  "analyze_method_change md5 cname old_methods new_methods mname =
     (case getitem old_methods mname of
        Inl e \<Rightarrow> Inl e
      | Inr old_method \<Rightarrow>
          (case getitem new_methods mname of
             Inl e \<Rightarrow> Inl e
           | Inr new_method \<Rightarrow>
               (let sig_change = has_signature_change old_method new_method;
                    body = analyze_body_change md5 (fd_body old_method) (fd_body new_method)
                in Inr (if sig_change \<or> body \<noteq> ChangeType
                        then [\<lparr>class_name = cname, method_name = mname,
                               method_signature_change = sig_change,
                               method_body_change = body\<rparr>]
                        else []))))"

definition analyze_class_method_changes ::
  "(string \<Rightarrow> digest) \<Rightarrow> analyzer \<Rightarrow> error + class_method_change list" where
  "analyze_class_method_changes md5 a =
     for_each
       (\<lambda>cname.
          case getitem (classes (old_visitor a)) cname of
            Inl e \<Rightarrow> Inl e
          | Inr old_class \<Rightarrow>
              (case getitem (classes (new_visitor a)) cname of
                 Inl e \<Rightarrow> Inl e
               | Inr new_class \<Rightarrow>
                   (let old_methods = class_methods old_class;
                        new_methods = class_methods new_class
                    in for_each (analyze_method_change md5 cname old_methods new_methods)
                         (keys_both old_methods new_methods))))
       (keys_both (classes (old_visitor a)) (classes (new_visitor a)))"

definition analyze_changes :: "(string \<Rightarrow> digest) \<Rightarrow> analyzer \<Rightarrow> error + change_analysis" where
  "analyze_changes md5 a =
     (case for_each
             (\<lambda>func_name. case analyze_function_change md5 a func_name of
                               Inl e \<Rightarrow> Inl e
                             | Inr function_change \<Rightarrow> Inr [function_change])
             (keys_both (functions (old_visitor a)) (functions (new_visitor a))) of
        Inl e \<Rightarrow> Inl e
      | Inr changes \<Rightarrow>
          (case analyze_class_method_changes md5 a of
             Inl e \<Rightarrow> Inl e
           | Inr method_changes \<Rightarrow>
               Inr \<lparr>added_functions =
                      keys_minus (functions (new_visitor a)) (functions (old_visitor a)),
                    removed_functions =
                      keys_minus (functions (old_visitor a)) (functions (new_visitor a)),
                    function_changes = changes,
                    class_method_changes = method_changes\<rparr>))"

section \<open>The line scorer of ast2.py\<close>

record change_type2 =
  ct_type :: string
  description :: string
  priority :: int

text \<open>
  A character of a line is a code point below 256. \<^verbatim>\<open>str.strip()\<close> removes white space
  at both ends; the code points below 256 for which \<^verbatim>\<open>str.isspace\<close> holds are 9 to 13,
  28 to 32, 133 (U+0085) and 160 (U+00A0). \<^verbatim>\<open>str.startswith\<close> is \<open>prefix\<close>, and
  \<^verbatim>\<open>sub in s\<close> is \<open>contains sub s\<close>.
\<close>

definition isspace :: "char \<Rightarrow> bool" where
  "isspace c = (let k = (of_char c :: nat)
                in (9 \<le> k \<and> k \<le> 13) \<or> (28 \<le> k \<and> k \<le> 32) \<or> k = 133 \<or> k = 160)"

definition strip :: "string \<Rightarrow> string" where
  "strip s = rev (dropWhile isspace (rev (dropWhile isspace s)))"

fun contains :: "string \<Rightarrow> string \<Rightarrow> bool" where
  "contains sub [] = (sub = [])"
| "contains sub (c # cs) = (prefix sub (c # cs) \<or> contains sub cs)"

definition categorize_change :: "string \<Rightarrow> change_type2" where
  "categorize_change line =
     (let stripped_line = strip line in
      if prefix ''#'' stripped_line
      then \<lparr>ct_type = ''minor'', description = ''Comment changed'', priority = 1\<rparr>
      else if prefix ''import '' stripped_line \<or> prefix ''from '' stripped_line
      then \<lparr>ct_type = ''significant'', description = ''Import statement changed'', priority = 7\<rparr>
      else if stripped_line = []
      then \<lparr>ct_type = ''minor'', description = ''Whitespace change'', priority = 1\<rparr>
      else if contains ''='' stripped_line
              \<and> \<not> list_ex (\<lambda>keyword. contains keyword stripped_line)
                    [''if'', ''for'', ''while'', ''def'', ''class'']
      then \<lparr>ct_type = ''minor'', description = ''Variable assignment changed'', priority = 3\<rparr>
      else if list_ex (\<lambda>keyword. contains keyword stripped_line)
                [''if'', ''else'', ''elif'', ''for'', ''while'', ''try'', ''except'', ''with'']
      then \<lparr>ct_type = ''major'', description = ''Control flow changed'', priority = 9\<rparr>
      else if prefix ''def '' stripped_line \<or> prefix ''class '' stripped_line
      then \<lparr>ct_type = ''major'', description = ''Function or class definition changed'',
            priority = 10\<rparr>
      else \<lparr>ct_type = ''significant'', description = ''Code logic changed'', priority = 5\<rparr>)"

text \<open>
  The library functions of ast2.py are parameters: \<^verbatim>\<open>ast.dump\<close>, \<^verbatim>\<open>ast.unparse\<close> and
  \<^verbatim>\<open>difflib.unified_diff\<close> with \<^verbatim>\<open>n=0\<close>, listed.
\<close>

record pylib =
  ast_dump :: "node \<Rightarrow> string"
  ast_unparse :: "node \<Rightarrow> string"
  unified_diff :: "string list \<Rightarrow> string list \<Rightarrow> string list"

text \<open>\<^verbatim>\<open>s.split('\n')\<close>\<close>

fun split_lines :: "string \<Rightarrow> string list" where
  "split_lines [] = [[]]"
| "split_lines (c # cs) =
     (if c = CHR 0x0A then [] # split_lines cs
      else (case split_lines cs of [] \<Rightarrow> [[c]] | l # ls \<Rightarrow> (c # l) # ls))"

text \<open>
  The loop of \<^verbatim>\<open>_analyze_body_changes\<close> over the lines of the diff: the first two lines
  are skipped, and every line that starts with a plus or a minus sign is categorised
  without its first character.
\<close>

definition diff_changes :: "string list \<Rightarrow> change_type2 list" where
  "diff_changes diff =
     [categorize_change (drop 1 line).
        line \<leftarrow> drop 2 diff, prefix ''+'' line \<or> prefix ''-'' line]"

definition analyze_body_changes :: "pylib \<Rightarrow> fdef \<Rightarrow> fdef \<Rightarrow> change_type2 list" where
  "analyze_body_changes lib old_func new_func =
     (let old_body = split_lines (ast_unparse lib (FunctionDef old_func));
          new_body = split_lines (ast_unparse lib (FunctionDef new_func))
      in diff_changes (unified_diff lib old_body new_body))"

definition analyze_signature_change :: "pylib \<Rightarrow> fdef \<Rightarrow> fdef \<Rightarrow> change_type2 option" where
  "analyze_signature_change lib old_func new_func =
     (if ast_dump lib (fd_args old_func) \<noteq> ast_dump lib (fd_args new_func)
      then Some \<lparr>ct_type = ''significant'', description = ''Function signature changed'',
                 priority = 8\<rparr>
      else None)"

section \<open>The analyser of ast2.py\<close>

record function_change2 =
  name2 :: string
  signature_change2 :: "change_type2 option"
  body_changes :: "change_type2 list"
  nested_function_change2 :: "change_type2 option"

record class_method_change2 =
  class_name2 :: string
  method_name2 :: string
  method_signature_change2 :: "change_type2 option"
  method_body_changes :: "change_type2 list"

record change_analysis2 =
  added_functions2 :: "string list"
  removed_functions2 :: "string list"
  changed_functions :: "function_change2 list"
  changed_class_methods :: "class_method_change2 list"

record analyzer2 = analyzer +
  old_code :: string
  new_code :: string

definition CodeChangeAnalyzer2 :: "(string \<Rightarrow> error + node) \<Rightarrow> string \<Rightarrow> string \<Rightarrow> error + analyzer2" where
  "CodeChangeAnalyzer2 parse old_text new_text =
     (case parse old_text of
        Inl e \<Rightarrow> Inl e
      | Inr old_tree \<Rightarrow>
          (case parse new_text of
             Inl e \<Rightarrow> Inl e
           | Inr new_tree \<Rightarrow>
               Inr \<lparr>old_ast = old_tree, new_ast = new_tree,
                    old_visitor = visit old_tree ASTVisitor,
                    new_visitor = visit new_tree ASTVisitor,
                    old_code = old_text, new_code = new_text\<rparr>))"

definition has_significant_changes :: "function_change2 \<Rightarrow> bool" where
  "has_significant_changes change =
     (signature_change2 change \<noteq> None
      \<or> length (body_changes change) > 0
      \<or> nested_function_change2 change \<noteq> None)"

text \<open>
  \<^verbatim>\<open>analyze_changes\<close> of ast2.py calls \<^verbatim>\<open>self._analyze_function_change(func_name)\<close>, and
  the class of ast2.py has no attribute of that name: the statements that would build the
  record stand after the \<^verbatim>\<open>return\<close> of \<^verbatim>\<open>_has_significant_changes\<close>. Reading the
  attribute raises \<^verbatim>\<open>AttributeError\<close> before anything is called.
\<close>

definition analyze_function_change2 :: "analyzer2 \<Rightarrow> string \<Rightarrow> error + function_change2" where
  "analyze_function_change2 a func_name = Inl AttributeError"

text \<open>
  One round of the inner loop of \<^verbatim>\<open>_analyze_class_method_changes\<close> in ast2.py. The test
  \<^verbatim>\<open>if signature_change or body_changes\<close> holds for a record that is not \<^verbatim>\<open>None\<close> and
  for a list that is not empty.
\<close>

definition analyze_method_change2 ::
  "pylib \<Rightarrow> string \<Rightarrow> (string \<times> fdef) list \<Rightarrow> (string \<times> fdef) list \<Rightarrow> string
     \<Rightarrow> error + class_method_change2 list" where
  "analyze_method_change2 lib cname old_methods new_methods mname =
     (case getitem old_methods mname of
        Inl e \<Rightarrow> Inl e
      | Inr old_method \<Rightarrow>
          (case getitem new_methods mname of
             Inl e \<Rightarrow> Inl e
           | Inr new_method \<Rightarrow>
               (let sig_change = analyze_signature_change lib old_method new_method;
                    changes = analyze_body_changes lib old_method new_method
                in Inr (if sig_change \<noteq> None \<or> changes \<noteq> []
                        then [\<lparr>class_name2 = cname, method_name2 = mname,
                               method_signature_change2 = sig_change,
                               method_body_changes = changes\<rparr>]
                        else []))))"

definition analyze_class_method_changes2 ::
  "pylib \<Rightarrow> analyzer2 \<Rightarrow> error + class_method_change2 list" where
  "analyze_class_method_changes2 lib a =
     for_each
       (\<lambda>cname.
          case getitem (classes (old_visitor a)) cname of
            Inl e \<Rightarrow> Inl e
          | Inr old_class \<Rightarrow>
              (case getitem (classes (new_visitor a)) cname of
                 Inl e \<Rightarrow> Inl e
               | Inr new_class \<Rightarrow>
                   (let old_methods = class_methods old_class;
                        new_methods = class_methods new_class
                    in for_each (analyze_method_change2 lib cname old_methods new_methods)
                         (keys_both old_methods new_methods))))
       (keys_both (classes (old_visitor a)) (classes (new_visitor a)))"

definition analyze_changes2 :: "pylib \<Rightarrow> analyzer2 \<Rightarrow> error + change_analysis2" where
  "analyze_changes2 lib a =
     (case for_each
             (\<lambda>func_name. case analyze_function_change2 a func_name of
                               Inl e \<Rightarrow> Inl e
                             | Inr function_change \<Rightarrow>
                                 Inr (if has_significant_changes function_change
                                      then [function_change] else []))
             (keys_both (functions (old_visitor a)) (functions (new_visitor a))) of
        Inl e \<Rightarrow> Inl e
      | Inr changes \<Rightarrow>
          (case analyze_class_method_changes2 lib a of
             Inl e \<Rightarrow> Inl e
           | Inr method_changes \<Rightarrow>
               Inr \<lparr>added_functions2 =
                      keys_minus (functions (new_visitor a)) (functions (old_visitor a)),
                    removed_functions2 =
                      keys_minus (functions (old_visitor a)) (functions (new_visitor a)),
                    changed_functions = changes,
                    changed_class_methods = method_changes\<rparr>))"

section \<open>Notions the properties are stated with\<close>

text \<open>
  \<open>preorder n\<close> lists the nodes of a tree depth first, a node before its children: the
  order in which \<^verbatim>\<open>ASTHasher.visit\<close> and \<^verbatim>\<open>ASTVisitor.visit\<close> reach them.
\<close>

function preorder :: "node \<Rightarrow> node list" where
  "preorder n = n # concat (map preorder (iter_child_nodes n))"
  by pat_completeness auto
termination
  by (relation "measure size") (auto simp: child_size)

declare preorder.simps [simp del]

text \<open>What the visitor stores when it reaches one node.\<close>

fun store_definition :: "node \<Rightarrow> visitor \<Rightarrow> visitor" where
  "store_definition (FunctionDef d) v = v\<lparr>functions := AList.update (fd_name d) d (functions v)\<rparr>"
| "store_definition (ClassDef d) v = v\<lparr>classes := AList.update (cd_name d) d (classes v)\<rparr>"
| "store_definition (Node t fs) v = v"

text \<open>
  \<open>erase n\<close> is the shape of a tree: every scalar (identifier, literal, the name of a
  definition) is blanked, the classes of the nodes and the nesting stay. Two trees differ
  only in scalars when their shapes are equal.
\<close>

primrec erase :: "node \<Rightarrow> node"
  and erase_fdef :: "fdef \<Rightarrow> fdef"
  and erase_cdef :: "cdef \<Rightarrow> cdef"
  and erase_field :: "field \<Rightarrow> field"
  and erase_item :: "item \<Rightarrow> item" where
  "erase (FunctionDef d) = FunctionDef (erase_fdef d)"
| "erase (ClassDef d) = ClassDef (erase_cdef d)"
| "erase (Node t fs) = Node t (map (map_prod id erase_field) fs)"
| "erase_fdef (FDef nm a b r) = FDef [] (erase a) (map erase b) (map (map_prod id erase_field) r)"
| "erase_cdef (CDef nm r) = CDef [] (map (map_prod id erase_field) r)"
| "erase_field (Leaf v) = Leaf LNone"
| "erase_field (Child n) = Child (erase n)"
| "erase_field (Items its) = Items (map erase_item its)"
| "erase_item (ILeaf v) = ILeaf LNone"
| "erase_item (INode n) = INode (erase n)"

text \<open>
  \<open>py_norm n\<close> replaces every number of a tree by one representative of its value, so
  that two scalars have the same representative exactly when Python's \<^verbatim>\<open>==\<close> holds of
  them.
\<close>

fun norm_leaf :: "leaf \<Rightarrow> leaf" where
  "norm_leaf (LBool b) = LFloat (if b then 1 else 0)"
| "norm_leaf (LInt i) = LFloat (of_int i)"
| "norm_leaf v = v"

primrec py_norm :: "node \<Rightarrow> node"
  and py_norm_fdef :: "fdef \<Rightarrow> fdef"
  and py_norm_cdef :: "cdef \<Rightarrow> cdef"
  and py_norm_field :: "field \<Rightarrow> field"
  and py_norm_item :: "item \<Rightarrow> item" where
  "py_norm (FunctionDef d) = FunctionDef (py_norm_fdef d)"
| "py_norm (ClassDef d) = ClassDef (py_norm_cdef d)"
| "py_norm (Node t fs) = Node t (map (map_prod id py_norm_field) fs)"
| "py_norm_fdef (FDef nm a b r) =
     FDef nm (py_norm a) (map py_norm b) (map (map_prod id py_norm_field) r)"
| "py_norm_cdef (CDef nm r) = CDef nm (map (map_prod id py_norm_field) r)"
| "py_norm_field (Leaf v) = Leaf (norm_leaf v)"
| "py_norm_field (Child n) = Child (py_norm n)"
| "py_norm_field (Items its) = Items (map py_norm_item its)"
| "py_norm_item (ILeaf v) = ILeaf (norm_leaf v)"
| "py_norm_item (INode n) = INode (py_norm n)"

section \<open>Example trees\<close>

text \<open>
  The trees \<^verbatim>\<open>ast.parse\<close> builds (Python 3.9 to 3.11) for the constructs the examples use,
  with the fields of each class in the order of its \<^verbatim>\<open>_fields\<close>.
\<close>

definition ast_Name :: "string \<Rightarrow> string \<Rightarrow> node" where
  "ast_Name ident ctx = Node ''Name'' [(''id'', Leaf (LStr ident)), (''ctx'', Child (Node ctx []))]"

definition ast_Constant :: "leaf \<Rightarrow> node" where
  "ast_Constant v = Node ''Constant'' [(''value'', Leaf v), (''kind'', Leaf LNone)]"

definition ast_Pass :: node where
  "ast_Pass = Node ''Pass'' []"

definition ast_Expr :: "node \<Rightarrow> node" where
  "ast_Expr v = Node ''Expr'' [(''value'', Child v)]"

definition ast_Call :: "node \<Rightarrow> node list \<Rightarrow> node" where
  "ast_Call f xs =
     Node ''Call'' [(''func'', Child f), (''args'', Items (map INode xs)), (''keywords'', Items [])]"

definition ast_Attribute :: "node \<Rightarrow> string \<Rightarrow> string \<Rightarrow> node" where
  "ast_Attribute v attr ctx =
     Node ''Attribute'' [(''value'', Child v), (''attr'', Leaf (LStr attr)),
                         (''ctx'', Child (Node ctx []))]"

definition ast_Assign :: "node list \<Rightarrow> node \<Rightarrow> node" where
  "ast_Assign targets v =
     Node ''Assign'' [(''targets'', Items (map INode targets)), (''value'', Child v),
                      (''type_comment'', Leaf LNone)]"

definition ast_If :: "node \<Rightarrow> node list \<Rightarrow> node list \<Rightarrow> node" where
  "ast_If test body orelse =
     Node ''If'' [(''test'', Child test), (''body'', Items (map INode body)),
                  (''orelse'', Items (map INode orelse))]"

definition ast_For :: "node \<Rightarrow> node \<Rightarrow> node list \<Rightarrow> node" where
  "ast_For target iter body =
     Node ''For'' [(''target'', Child target), (''iter'', Child iter),
                   (''body'', Items (map INode body)), (''orelse'', Items []),
                   (''type_comment'', Leaf LNone)]"

definition ast_While :: "node \<Rightarrow> node list \<Rightarrow> node" where
  "ast_While test body =
     Node ''While'' [(''test'', Child test), (''body'', Items (map INode body)),
                     (''orelse'', Items [])]"

definition ast_arg :: "string \<Rightarrow> node" where
  "ast_arg a = Node ''arg'' [(''arg'', Leaf (LStr a)), (''annotation'', Leaf LNone),
                              (''type_comment'', Leaf LNone)]"

text \<open>Positional parameters and the default values of the last of them.\<close>

definition ast_arguments :: "string list \<Rightarrow> node list \<Rightarrow> node" where
  "ast_arguments params defaults =
     Node ''arguments'' [(''posonlyargs'', Items []), (''args'', Items (map (INode \<circ> ast_arg) params)),
                         (''vararg'', Leaf LNone), (''kwonlyargs'', Items []),
                         (''kw_defaults'', Items []), (''kwarg'', Leaf LNone),
                         (''defaults'', Items (map INode defaults))]"

definition ast_FunctionDef :: "string \<Rightarrow> node \<Rightarrow> node list \<Rightarrow> fdef" where
  "ast_FunctionDef nm args body =
     FDef nm args body [(''decorator_list'', Items []), (''returns'', Leaf LNone),
                        (''type_comment'', Leaf LNone)]"

definition ast_ClassDef :: "string \<Rightarrow> node list \<Rightarrow> cdef" where
  "ast_ClassDef nm body =
     CDef nm [(''bases'', Items []), (''keywords'', Items []), (''body'', Items (map INode body)),
              (''decorator_list'', Items [])]"

definition ast_Module :: "node list \<Rightarrow> node" where
  "ast_Module body = Node ''Module'' [(''body'', Items (map INode body)), (''type_ignores'', Items [])]"

lemmas ast_defs =
  ast_Name_def ast_Constant_def ast_Pass_def ast_Expr_def ast_Call_def ast_Attribute_def
  ast_Assign_def ast_If_def ast_For_def ast_While_def ast_arg_def ast_arguments_def
  ast_FunctionDef_def ast_ClassDef_def ast_Module_def

text \<open>\<^verbatim>\<open>if x: pass; pass\<close> and \<^verbatim>\<open>if x: pass\<close> with \<^verbatim>\<open>else: pass\<close>\<close>

definition if_two :: node where
  "if_two = ast_If (ast_Name ''x'' ''Load'') [ast_Pass, ast_Pass] []"

definition if_else :: node where
  "if_else = ast_If (ast_Name ''x'' ''Load'') [ast_Pass] [ast_Pass]"

text \<open>\<^verbatim>\<open>x = 1\<close>, \<^verbatim>\<open>y = 2\<close> and \<^verbatim>\<open>print(x)\<close>\<close>

definition assign_x :: node where
  "assign_x = ast_Assign [ast_Name ''x'' ''Store''] (ast_Constant (LInt 1))"

definition assign_y :: node where
  "assign_y = ast_Assign [ast_Name ''y'' ''Store''] (ast_Constant (LInt 2))"

definition print_x :: node where
  "print_x = ast_Expr (ast_Call (ast_Name ''print'' ''Load'') [ast_Name ''x'' ''Load''])"

text \<open>
  The two bodies of \<^verbatim>\<open>process_data\<close> in the example of the source:
  \<^verbatim>\<open>for item in data: print(item)\<close> and
  \<^verbatim>\<open>while data: item = data.pop(); print(item)\<close>.
\<close>

definition print_item :: node where
  "print_item = ast_Expr (ast_Call (ast_Name ''print'' ''Load'') [ast_Name ''item'' ''Load''])"

definition for_stmt :: node where
  "for_stmt = ast_For (ast_Name ''item'' ''Store'') (ast_Name ''data'' ''Load'') [print_item]"

definition while_stmt :: node where
  "while_stmt =
     ast_While (ast_Name ''data'' ''Load'')
       [ast_Assign [ast_Name ''item'' ''Store'']
          (ast_Call (ast_Attribute (ast_Name ''data'' ''Load'') ''pop'' ''Load'') []),
        print_item]"

text \<open>
  What \<^verbatim>\<open>difflib.unified_diff\<close> with \<^verbatim>\<open>n=0\<close> returns for the lines of the two versions
  of \<^verbatim>\<open>process_data\<close> as \<^verbatim>\<open>ast.unparse\<close> prints them.
\<close>

definition process_data_diff :: "string list" where
  "process_data_diff =
     [''--- '' @ [CHR 0x0A], ''+++ '' @ [CHR 0x0A], ''@@ -2 +2,2 @@'' @ [CHR 0x0A],
      ''-    for item in data:'', ''+    while data:'', ''+        item = data.pop()'']"

text \<open>\<^verbatim>\<open>def f(x=1): pass\<close>, \<^verbatim>\<open>def f(x=True): pass\<close> and \<^verbatim>\<open>def f(x=2): pass\<close>\<close>

definition f_default :: "leaf \<Rightarrow> fdef" where
  "f_default v = ast_FunctionDef ''f'' (ast_arguments [''x''] [ast_Constant v]) [ast_Pass]"

text \<open>\<^verbatim>\<open>def nm(): pass\<close>\<close>

definition nested_def :: "string \<Rightarrow> fdef" where
  "nested_def nm = ast_FunctionDef nm (ast_arguments [] []) [ast_Pass]"

text \<open>A module with the one function \<^verbatim>\<open>def f(): pass\<close>, and the parser that knows its text.\<close>

definition module_f :: node where
  "module_f = ast_Module [FunctionDef (nested_def ''f'')]"

definition parse_f :: "string \<Rightarrow> error + node" where
  "parse_f text = (if text = ''def f(): pass'' then Inr module_f else Inl SyntaxError)"

text \<open>Library functions that return the empty text, for the examples of ast2.py.\<close>

definition lib0 :: pylib where
  "lib0 = \<lparr>ast_dump = (\<lambda>n. []), ast_unparse = (\<lambda>n. []), unified_diff = (\<lambda>xs ys. [])\<rparr>"

text \<open>
  Two classes with a method of the same name:
  \<^verbatim>\<open>class A:\<close> \<^verbatim>\<open>def run(self): pass\<close> and \<^verbatim>\<open>class B:\<close> \<^verbatim>\<open>def run(self, x): pass\<close>.
\<close>

definition run_A :: fdef where
  "run_A = ast_FunctionDef ''run'' (ast_arguments [''self''] []) [ast_Pass]"

definition run_B :: fdef where
  "run_B = ast_FunctionDef ''run'' (ast_arguments [''self'', ''x''] []) [ast_Pass]"

text \<open>A module with one class \<^verbatim>\<open>A\<close> that has one method.\<close>

definition class_A :: "fdef \<Rightarrow> node" where
  "class_A m = ast_Module [ClassDef (ast_ClassDef ''A'' [FunctionDef m])]"

definition two_classes :: node where
  "two_classes =
     ast_Module [ClassDef (ast_ClassDef ''A'' [FunctionDef run_A]),
                 ClassDef (ast_ClassDef ''B'' [FunctionDef run_B])]"

section \<open>The fingerprint\<close>

lemma fold_visit_feed:
  assumes "\<And>c h. c \<in> set cs \<Longrightarrow> visit_feed c h = h @ g c"
  shows "fold visit_feed cs h = h @ concat (map g cs)"
  using assms by (induction cs arbitrary: h) auto

lemma concat_map_concat:
  "concat (map g (concat (map f xs))) = concat (map (\<lambda>c. concat (map g (f c))) xs)"
  by (induction xs) auto

lemma visit_feed_preorder: "visit_feed n h = h @ concat (map type_name (preorder n))"
proof (induction n arbitrary: h rule: node_child_induct)
  case (node n)
  have "fold visit_feed (iter_child_nodes n) (h @ type_name n)
        = (h @ type_name n)
          @ concat (map (\<lambda>c. concat (map type_name (preorder c))) (iter_child_nodes n))"
    by (rule fold_visit_feed) (rule node)
  moreover have "concat (map type_name (concat (map preorder (iter_child_nodes n))))
        = concat (map (\<lambda>c. concat (map type_name (preorder c))) (iter_child_nodes n))"
    by (rule concat_map_concat)
  ultimately show ?case
    by (simp add: visit_feed.simps [of n] preorder.simps [of n])
qed

lemma field_nodes_erase: "field_nodes (erase_field f) = map erase (field_nodes f)"
proof (cases f)
  case (Items its)
  have "concat (map (\<lambda>it. case it of INode n \<Rightarrow> [n] | ILeaf v \<Rightarrow> []) (map erase_item its))
        = map erase (concat (map (\<lambda>it. case it of INode n \<Rightarrow> [n] | ILeaf v \<Rightarrow> []) its))"
    by (induction its) (auto split: item.splits)
  with Items show ?thesis by simp
qed simp_all

lemma fields_nodes_erase:
  "fields_nodes (map (map_prod id erase_field) fs) = map erase (fields_nodes fs)"
  by (induction fs) (auto simp: fields_nodes_def field_nodes_erase)

lemma iter_child_nodes_erase: "iter_child_nodes (erase n) = map erase (iter_child_nodes n)"
proof (cases n)
  case (FunctionDef d)
  then show ?thesis by (cases d) (simp add: fields_nodes_erase)
next
  case (ClassDef d)
  then show ?thesis by (cases d) (simp add: fields_nodes_erase)
next
  case (Node t fs)
  then show ?thesis by (simp add: fields_nodes_erase)
qed

lemma type_name_erase: "type_name (erase n) = type_name n"
  by (cases n) simp_all

lemma fold_visit_feed_erase:
  assumes "\<And>c h. c \<in> set cs \<Longrightarrow> visit_feed (erase c) h = visit_feed c h"
  shows "fold visit_feed (map erase cs) h = fold visit_feed cs h"
  using assms by (induction cs arbitrary: h) auto

lemma visit_feed_erase: "visit_feed (erase n) h = visit_feed n h"
proof (induction n arbitrary: h rule: node_child_induct)
  case (node n)
  have "fold visit_feed (map erase (iter_child_nodes n)) (h @ type_name n)
        = fold visit_feed (iter_child_nodes n) (h @ type_name n)"
    by (rule fold_visit_feed_erase) (rule node)
  then show ?case
    by (simp add: visit_feed.simps [of "erase n"] visit_feed.simps [of n]
          iter_child_nodes_erase type_name_erase)
qed

lemma ASTHasher_visit_erase: "ASTHasher_visit md5 (erase n) = ASTHasher_visit md5 n"
  by (simp add: ASTHasher_visit_def visit_feed_erase)

text \<open>The text the hasher is fed for the example statements.\<close>

lemma feed_if_two: "visit_feed if_two [] = ''IfNameLoadPassPass''"
  by (simp add: if_two_def ast_defs visit_feed.simps fields_nodes_def)

lemma feed_if_else: "visit_feed if_else [] = ''IfNameLoadPassPass''"
  by (simp add: if_else_def ast_defs visit_feed.simps fields_nodes_def)

lemma feed_assign_x: "visit_feed assign_x [] = ''AssignNameStoreConstant''"
  by (simp add: assign_x_def ast_defs visit_feed.simps fields_nodes_def)

lemma feed_assign_y: "visit_feed assign_y [] = ''AssignNameStoreConstant''"
  by (simp add: assign_y_def ast_defs visit_feed.simps fields_nodes_def)

lemma feed_print_x: "visit_feed print_x [] = ''ExprCallNameLoadNameLoad''"
  by (simp add: print_x_def ast_defs visit_feed.simps fields_nodes_def)

lemma feed_for_stmt: "visit_feed for_stmt [] = ''ForNameStoreNameLoadExprCallNameLoadNameLoad''"
  by (simp add: for_stmt_def print_item_def ast_defs visit_feed.simps fields_nodes_def)

lemma feed_while_stmt:
  "visit_feed while_stmt []
   = ''WhileNameLoadAssignNameStoreCallAttributeNameLoadLoadExprCallNameLoadNameLoad''"
  by (simp add: while_stmt_def print_item_def ast_defs visit_feed.simps fields_nodes_def)

text \<open>
  C6 as the claim states it fails: \<^verbatim>\<open>if x: pass; pass\<close> and \<^verbatim>\<open>if x: pass\<close> followed by
  \<^verbatim>\<open>else: pass\<close> differ in nested shape (two statements in one branch, or one in each),
  and the hasher is fed the same text for both, so that their digests are equal whatever
  the digest function.
\<close>

theorem C6_counterexample:
  "\<not> (\<forall>(md5 :: string \<Rightarrow> digest) a b.
        erase a \<noteq> erase b \<longrightarrow> ASTHasher_visit md5 a \<noteq> ASTHasher_visit md5 b)"
proof
  assume h: "\<forall>(md5 :: string \<Rightarrow> digest) a b.
               erase a \<noteq> erase b \<longrightarrow> ASTHasher_visit md5 a \<noteq> ASTHasher_visit md5 b"
  have "erase if_two \<noteq> erase if_else"
    by (simp add: if_two_def if_else_def ast_defs)
  with h have "ASTHasher_visit id if_two \<noteq> ASTHasher_visit id if_else" by blast
  then show False
    by (simp add: ASTHasher_visit_def feed_if_two feed_if_else)
qed

text \<open>
  C6, amended: two subtrees that differ only in scalar leaf fields (their shapes are equal)
  have equal digests; and the digest of a subtree is the digest of the type names of its
  nodes, written one after the other in pre-order, so that two subtrees of different shape
  have different digests only if these texts differ.
\<close>

theorem C6_fingerprint_of_shape:
  "(erase a = erase b \<longrightarrow> ASTHasher_visit md5 a = ASTHasher_visit md5 b)
   \<and> ASTHasher_visit md5 a = md5 (concat (map type_name (preorder a)))"
proof
  show "erase a = erase b \<longrightarrow> ASTHasher_visit md5 a = ASTHasher_visit md5 b"
    by (metis ASTHasher_visit_erase)
  show "ASTHasher_visit md5 a = md5 (concat (map type_name (preorder a)))"
    by (simp add: ASTHasher_visit_def visit_feed_preorder)
qed

theorem C6_fingerprint_of_shape_witness:
  "erase assign_x = erase assign_y \<and> assign_x \<noteq> assign_y
   \<and> ASTHasher_visit id assign_x = ASTHasher_visit id assign_y
   \<and> ASTHasher_visit id assign_x = ''AssignNameStoreConstant''"
proof -
  have e: "erase assign_x = erase assign_y"
    by (simp add: assign_x_def assign_y_def ast_defs)
  have n: "assign_x \<noteq> assign_y"
    by (simp add: assign_x_def assign_y_def ast_defs)
  have "ASTHasher_visit id assign_x = ''AssignNameStoreConstant''"
    by (simp add: ASTHasher_visit_def feed_assign_x)
  with e n C6_fingerprint_of_shape [of assign_x assign_y id] show ?thesis by simp
qed

section \<open>The severity of a body change\<close>

text \<open>
  C3 as the claim states it fails in its last case: the severity is \<open>rearrangement\<close>
  also where the two bodies do not hold the same multiset of fingerprints. A body
  \<^verbatim>\<open>x = 1; x = 1; print(x)\<close> that loses one of its two assignments has the same set of
  fingerprints before and after.
\<close>

theorem C3_counterexample:
  "\<not> (\<forall>(md5 :: string \<Rightarrow> digest) old_body new_body.
        analyze_body_change md5 old_body new_body = ChangeType\<lparr>rearrangement := True\<rparr>
        \<longrightarrow> mset (map (ASTHasher_visit md5) old_body) = mset (map (ASTHasher_visit md5) new_body))"
proof
  assume h: "\<forall>(md5 :: string \<Rightarrow> digest) old_body new_body.
        analyze_body_change md5 old_body new_body = ChangeType\<lparr>rearrangement := True\<rparr>
        \<longrightarrow> mset (map (ASTHasher_visit md5) old_body) = mset (map (ASTHasher_visit md5) new_body)"
  have "analyze_body_change id [assign_x, assign_x, print_x] [assign_x, print_x]
        = ChangeType\<lparr>rearrangement := True\<rparr>"
    by (simp add: analyze_body_change_def Let_def)
  with h have "mset (map (ASTHasher_visit id) [assign_x, assign_x, print_x])
               = mset (map (ASTHasher_visit id) [assign_x, print_x])"
    by blast
  then have "size (mset (map (ASTHasher_visit id) [assign_x, assign_x, print_x]))
             = size (mset (map (ASTHasher_visit id) [assign_x, print_x]))"
    by simp
  then show False by simp
qed

text \<open>
  C3, amended: the severity is unchanged when the two sequences of fingerprints are
  equal; otherwise structural when the numbers of distinct fingerprints differ; otherwise
  minor_edit when the sets of distinct fingerprints differ; otherwise (the same set of
  distinct fingerprints in sequences that differ) rearrangement.
\<close>

theorem C3_body_change_severity:
  "analyze_body_change md5 old_body new_body =
     (if map (ASTHasher_visit md5) old_body = map (ASTHasher_visit md5) new_body
      then \<lparr>structural = False, minor_edit = False, rearrangement = False\<rparr>
      else if card (ASTHasher_visit md5 ` set old_body) \<noteq> card (ASTHasher_visit md5 ` set new_body)
      then \<lparr>structural = True, minor_edit = False, rearrangement = False\<rparr>
      else if ASTHasher_visit md5 ` set old_body \<noteq> ASTHasher_visit md5 ` set new_body
      then \<lparr>structural = False, minor_edit = True, rearrangement = False\<rparr>
      else \<lparr>structural = False, minor_edit = False, rearrangement = True\<rparr>)"
  by (simp add: analyze_body_change_def Let_def ChangeType_def)

theorem C3_body_change_severity_witness:
  "analyze_body_change id [assign_x] [assign_x, print_x]
     = \<lparr>structural = True, minor_edit = False, rearrangement = False\<rparr>
   \<and> analyze_body_change id [assign_x] [print_x]
     = \<lparr>structural = False, minor_edit = True, rearrangement = False\<rparr>
   \<and> analyze_body_change id [assign_x, print_x] [print_x, assign_x]
     = \<lparr>structural = False, minor_edit = False, rearrangement = True\<rparr>
   \<and> analyze_body_change id [assign_x, print_x] [assign_y, print_x]
     = \<lparr>structural = False, minor_edit = False, rearrangement = False\<rparr>"
  using C3_body_change_severity [of id "[assign_x]" "[assign_x, print_x]"]
        C3_body_change_severity [of id "[assign_x]" "[print_x]"]
        C3_body_change_severity [of id "[assign_x, print_x]" "[print_x, assign_x]"]
        C3_body_change_severity [of id "[assign_x, print_x]" "[assign_y, print_x]"]
  by (simp add: ASTHasher_visit_def feed_assign_x feed_assign_y feed_print_x insert_commute)

text \<open>
  C8 as the claim states it fails: \<^verbatim>\<open>x = 1\<close> and \<^verbatim>\<open>y = 2\<close> are two different statements
  of one shape, so their fingerprints are equal, and the body with the two swapped has the
  same sequence of fingerprints: the severity is unchanged, not rearrangement.
\<close>

theorem C8_counterexample:
  "\<not> (\<forall>(md5 :: string \<Rightarrow> digest) s1 s2.
        s1 \<noteq> s2 \<longrightarrow> analyze_body_change md5 [s1, s2] [s2, s1] = ChangeType\<lparr>rearrangement := True\<rparr>)"
proof
  assume h: "\<forall>(md5 :: string \<Rightarrow> digest) s1 s2.
        s1 \<noteq> s2 \<longrightarrow> analyze_body_change md5 [s1, s2] [s2, s1] = ChangeType\<lparr>rearrangement := True\<rparr>"
  have "assign_x \<noteq> assign_y"
    by (simp add: assign_x_def assign_y_def ast_defs)
  with h have "analyze_body_change id [assign_x, assign_y] [assign_y, assign_x]
               = ChangeType\<lparr>rearrangement := True\<rparr>"
    by blast
  then show False
    by (simp add: analyze_body_change_def Let_def ASTHasher_visit_def feed_assign_x
          feed_assign_y ChangeType_def)
qed

text \<open>
  C8, amended: swapping the two statements of a body yields the severity rearrangement
  when the fingerprints of the two statements differ, and unchanged when they are equal
  (two statements of one shape); it never yields structural or minor_edit.
\<close>

theorem C8_swap_two_statements:
  "analyze_body_change md5 [s1, s2] [s2, s1] =
     (if ASTHasher_visit md5 s1 = ASTHasher_visit md5 s2
      then \<lparr>structural = False, minor_edit = False, rearrangement = False\<rparr>
      else \<lparr>structural = False, minor_edit = False, rearrangement = True\<rparr>)"
  by (auto simp: analyze_body_change_def Let_def ChangeType_def insert_commute)

theorem C8_swap_two_statements_witness:
  "analyze_body_change id [assign_x, print_x] [print_x, assign_x]
     = \<lparr>structural = False, minor_edit = False, rearrangement = True\<rparr>
   \<and> analyze_body_change id [assign_x, assign_y] [assign_y, assign_x]
     = \<lparr>structural = False, minor_edit = False, rearrangement = False\<rparr>"
  using C8_swap_two_statements [of id assign_x print_x]
        C8_swap_two_statements [of id assign_x assign_y]
  by (simp add: ASTHasher_visit_def feed_assign_x feed_assign_y feed_print_x)


section \<open>The line scorer\<close>

lemma isspace_simps:
  "isspace CHR '' ''" "\<not> isspace CHR ''#''" "\<not> isspace CHR ''x''" "\<not> isspace CHR '')''"
  "\<not> isspace CHR ''f''" "\<not> isspace CHR ''w''" "\<not> isspace CHR ''i''" "\<not> isspace CHR '':''"
  "\<not> isspace CHR ''1''" "\<not> isspace CHR ''t''"
  by (simp_all add: isspace_def)

text \<open>
  C4 as the claim states it fails: each of the two bodies of \<^verbatim>\<open>process_data\<close> is one
  statement (a \<^verbatim>\<open>for\<close> loop, a \<^verbatim>\<open>while\<close> loop), so the two sets of fingerprints have one
  element each, and no digest function makes the severity structural.
\<close>

theorem C4_counterexample:
  "\<not> (\<exists>md5 :: string \<Rightarrow> digest.
        analyze_body_change md5 [for_stmt] [while_stmt] = ChangeType\<lparr>structural := True\<rparr>)"
  by (simp add: analyze_body_change_def Let_def ChangeType_def)

text \<open>
  C4, amended: for the two bodies of \<^verbatim>\<open>process_data\<close> the fingerprint-set method yields
  minor_edit (unchanged, should the digests of the two texts fed to the hasher collide),
  and the line scorer yields, for the diff of the two versions, a record of major priority
  for the removed \<^verbatim>\<open>for\<close> line, one for the added \<^verbatim>\<open>while\<close> line, and a minor record for
  the added assignment.
\<close>

theorem C4_process_data:
  "analyze_body_change md5 [for_stmt] [while_stmt] =
     (if md5 ''ForNameStoreNameLoadExprCallNameLoadNameLoad''
         = md5 ''WhileNameLoadAssignNameStoreCallAttributeNameLoadLoadExprCallNameLoadNameLoad''
      then \<lparr>structural = False, minor_edit = False, rearrangement = False\<rparr>
      else \<lparr>structural = False, minor_edit = True, rearrangement = False\<rparr>)
   \<and> diff_changes process_data_diff =
       [\<lparr>ct_type = ''major'', description = ''Control flow changed'', priority = 9\<rparr>,
        \<lparr>ct_type = ''major'', description = ''Control flow changed'', priority = 9\<rparr>,
        \<lparr>ct_type = ''minor'', description = ''Variable assignment changed'', priority = 3\<rparr>]"
proof
  show "analyze_body_change md5 [for_stmt] [while_stmt] =
     (if md5 ''ForNameStoreNameLoadExprCallNameLoadNameLoad''
         = md5 ''WhileNameLoadAssignNameStoreCallAttributeNameLoadLoadExprCallNameLoadNameLoad''
      then \<lparr>structural = False, minor_edit = False, rearrangement = False\<rparr>
      else \<lparr>structural = False, minor_edit = True, rearrangement = False\<rparr>)"
    by (simp add: analyze_body_change_def Let_def ChangeType_def ASTHasher_visit_def
          feed_for_stmt feed_while_stmt)
  have 1: "categorize_change ''    for item in data:''
           = \<lparr>ct_type = ''major'', description = ''Control flow changed'', priority = 9\<rparr>"
    by (simp add: categorize_change_def strip_def isspace_simps)
  have 2: "categorize_change ''    while data:''
           = \<lparr>ct_type = ''major'', description = ''Control flow changed'', priority = 9\<rparr>"
    by (simp add: categorize_change_def strip_def isspace_simps)
  have 3: "categorize_change ''        item = data.pop()''
           = \<lparr>ct_type = ''minor'', description = ''Variable assignment changed'', priority = 3\<rparr>"
    by (simp add: categorize_change_def strip_def isspace_simps)
  show "diff_changes process_data_diff =
       [\<lparr>ct_type = ''major'', description = ''Control flow changed'', priority = 9\<rparr>,
        \<lparr>ct_type = ''major'', description = ''Control flow changed'', priority = 9\<rparr>,
        \<lparr>ct_type = ''minor'', description = ''Variable assignment changed'', priority = 3\<rparr>]"
    by (simp add: diff_changes_def process_data_diff_def 1 2 3)
qed

theorem C4_process_data_witness:
  "analyze_body_change id [for_stmt] [while_stmt]
     = \<lparr>structural = False, minor_edit = True, rearrangement = False\<rparr>
   \<and> map priority (diff_changes process_data_diff) = [9, 9, 3]"
  using C4_process_data [of id] by simp

text \<open>
  C10 as the claim states it fails: the assignment rule tests for the five texts
  \<^verbatim>\<open>if\<close>, \<^verbatim>\<open>for\<close>, \<^verbatim>\<open>while\<close>, \<^verbatim>\<open>def\<close> and \<^verbatim>\<open>class\<close>, not for the keywords of the
  control-flow rule. The line \<^verbatim>\<open>x = retry()\<close> contains \<^verbatim>\<open>try\<close> and is classified by the
  assignment rule.
\<close>

theorem C10_counterexample:
  "contains ''try'' (strip ''x = retry()'')
   \<and> categorize_change ''x = retry()''
       = \<lparr>ct_type = ''minor'', description = ''Variable assignment changed'', priority = 3\<rparr>"
  by (simp add: categorize_change_def strip_def isspace_simps)

text \<open>
  C10, amended: a changed line is classified by the assignment rule (minor, priority 3)
  exactly when its trimmed text is no comment line and no import line, contains \<^verbatim>\<open>=\<close>, and
  contains none of the texts \<^verbatim>\<open>if\<close>, \<^verbatim>\<open>for\<close>, \<^verbatim>\<open>while\<close>, \<^verbatim>\<open>def\<close> and \<^verbatim>\<open>class\<close>. A
  line that contains one of these five is not classified by the assignment rule; a line
  that contains \<^verbatim>\<open>else\<close>, \<^verbatim>\<open>try\<close>, \<^verbatim>\<open>except\<close> or \<^verbatim>\<open>with\<close> and none of the five is.
\<close>

theorem C10_assignment_rule:
  "categorize_change line
     = \<lparr>ct_type = ''minor'', description = ''Variable assignment changed'', priority = 3\<rparr>
   \<longleftrightarrow>
   (\<not> prefix ''#'' (strip line) \<and> \<not> prefix ''import '' (strip line)
    \<and> \<not> prefix ''from '' (strip line) \<and> contains ''='' (strip line)
    \<and> \<not> contains ''if'' (strip line) \<and> \<not> contains ''for'' (strip line)
    \<and> \<not> contains ''while'' (strip line) \<and> \<not> contains ''def'' (strip line)
    \<and> \<not> contains ''class'' (strip line))"
proof -
  have "\<not> contains ''='' []" by simp
  then show ?thesis
    by (auto simp: categorize_change_def Let_def)
qed

theorem C10_assignment_rule_witness:
  "categorize_change ''    x = 1''
     = \<lparr>ct_type = ''minor'', description = ''Variable assignment changed'', priority = 3\<rparr>
   \<and> categorize_change ''    if x == 1:''
     = \<lparr>ct_type = ''major'', description = ''Control flow changed'', priority = 9\<rparr>"
proof -
  have "categorize_change ''    if x == 1:''
     = \<lparr>ct_type = ''major'', description = ''Control flow changed'', priority = 9\<rparr>"
    by (simp add: categorize_change_def strip_def isspace_simps)
  then show ?thesis
    using C10_assignment_rule [of "''    x = 1''"]
    by (simp add: strip_def isspace_simps)
qed


section \<open>The signature change\<close>

lemma py_eq_norm_leaf: "py_eq x y \<longleftrightarrow> norm_leaf x = norm_leaf y"
  by (cases x; cases y) (auto simp: py_eq_def)

lemma compare_py_norm:
  "compare_ast_nodes a b \<longleftrightarrow> py_norm a = py_norm b"
  "length ns1 = length ns2 \<longrightarrow>
     (compare_node_lists ns1 ns2 \<longleftrightarrow> map py_norm ns1 = map py_norm ns2)"
  "compare_fields fs1 fs2 \<longleftrightarrow>
     map (map_prod id py_norm_field) fs1 = map (map_prod id py_norm_field) fs2"
  "compare_values v1 v2 \<longleftrightarrow> py_norm_field v1 = py_norm_field v2"
  "length is1 = length is2 \<longrightarrow>
     (compare_items is1 is2 \<longleftrightarrow> map py_norm_item is1 = map py_norm_item is2)"
proof (induction a b and ns1 ns2 and fs1 fs2 and v1 v2 and is1 is2
       rule: compare_ast_nodes_compare_node_lists_compare_fields_compare_values_compare_items.induct)
qed (auto simp: py_eq_norm_leaf id_def dest: map_eq_imp_length_eq)

text \<open>
  What the flag computes: it is true exactly when the two parameter lists differ once
  every number stands for its value, that is, when they are not deeply equal with scalars
  compared by Python's \<^verbatim>\<open>==\<close>. For \<^verbatim>\<open>def f(x=v): pass\<close> against
  \<^verbatim>\<open>def f(x=w): pass\<close> it is true exactly when \<^verbatim>\<open>v != w\<close>, whatever the severity of the
  body, which is unchanged.
\<close>

lemma has_signature_change_py_norm:
  "has_signature_change old_func new_func
     \<longleftrightarrow> py_norm (fd_args old_func) \<noteq> py_norm (fd_args new_func)"
  by (simp add: has_signature_change_def compare_py_norm(1))

lemma has_signature_change_default:
  "has_signature_change (f_default v) (f_default w) \<longleftrightarrow> \<not> py_eq v w"
  by (simp add: has_signature_change_def f_default_def ast_defs py_eq_def)

lemma body_change_default:
  "analyze_body_change md5 (fd_body (f_default v)) (fd_body (f_default w))
     = \<lparr>structural = False, minor_edit = False, rearrangement = False\<rparr>"
  by (simp add: analyze_body_change_def f_default_def ast_defs ChangeType_def)

text \<open>
  C7 at \<^verbatim>\<open>def f(x=1): pass\<close> against \<^verbatim>\<open>def f(x=True): pass\<close>: only the default value
  of the parameter changes, the two parameter lists are not structurally equal, and the
  signature-change flag is false. The comparison reads leaf values with Python's
  \<^verbatim>\<open>!=\<close>, and \<^verbatim>\<open>1 != True\<close> is false. A change of the default from \<^verbatim>\<open>1\<close> to \<^verbatim>\<open>2\<close>
  is flagged.
\<close>

theorem C7_default_value_not_flagged:
  "fd_args (f_default (LInt 1)) \<noteq> fd_args (f_default (LBool True))
   \<and> \<not> has_signature_change (f_default (LInt 1)) (f_default (LBool True))
   \<and> has_signature_change (f_default (LInt 1)) (f_default (LInt 2))"
  by (simp add: has_signature_change_def f_default_def ast_defs py_eq_def)

section \<open>The symbol tables of a tree\<close>

lemma fold_visit_preorder:
  assumes "\<And>c v. c \<in> set cs \<Longrightarrow> visit c v = fold store_definition (preorder c) v"
  shows "fold visit cs v = fold store_definition (concat (map preorder cs)) v"
  using assms by (induction cs arbitrary: v) auto

lemma visit_children: "visit n v = fold visit (iter_child_nodes n) (store_definition n v)"
  by (cases n) (simp_all del: iter_child_nodes.simps)

lemma visit_preorder: "visit n v = fold store_definition (preorder n) v"
proof (induction n arbitrary: v rule: node_child_induct)
  case (node n)
  have "fold visit (iter_child_nodes n) (store_definition n v)
        = fold store_definition (concat (map preorder (iter_child_nodes n))) (store_definition n v)"
    by (rule fold_visit_preorder) (rule node)
  then show ?case
    by (simp add: visit_children [of n] preorder.simps [of n])
qed

lemma functions_fold_store:
  "functions (fold store_definition ns v)
   = fold (\<lambda>d. AList.update (fd_name d) d) [d. FunctionDef d \<leftarrow> ns] (functions v)"
proof (induction ns arbitrary: v)
  case Nil
  show ?case by simp
next
  case (Cons n ns)
  show ?case by (cases n) (simp_all add: Cons)
qed

lemma classes_fold_store:
  "classes (fold store_definition ns v)
   = fold (\<lambda>d. AList.update (cd_name d) d) [d. ClassDef d \<leftarrow> ns] (classes v)"
proof (induction ns arbitrary: v)
  case Nil
  show ?case by simp
next
  case (Cons n ns)
  show ?case by (cases n) (simp_all add: Cons)
qed

lemma distinct_fold_update:
  "distinct (map fst al) \<Longrightarrow> distinct (map fst (fold (\<lambda>d. AList.update (f d) d) ds al))"
  by (induction ds arbitrary: al) (auto simp: distinct_update)

lemma find_snoc:
  "find P (xs @ [x]) = (case find P xs of None \<Rightarrow> (if P x then Some x else None) | Some y \<Rightarrow> Some y)"
  by (induction xs) auto

lemma map_of_fold_update:
  "map_of (fold (\<lambda>d. AList.update (f d) d) ds al) k
   = (case find (\<lambda>d. f d = k) (rev ds) of None \<Rightarrow> map_of al k | Some d \<Rightarrow> Some d)"
proof (induction ds arbitrary: al)
  case Nil
  show ?case by simp
next
  case (Cons d ds)
  show ?case
    by (simp add: Cons find_snoc update_conv' split: option.splits)
qed

lemma functions_visit:
  "functions (visit t ASTVisitor)
   = fold (\<lambda>d. AList.update (fd_name d) d) [d. FunctionDef d \<leftarrow> preorder t] []"
  by (simp add: visit_preorder functions_fold_store ASTVisitor_def)

lemma classes_visit:
  "classes (visit t ASTVisitor)
   = fold (\<lambda>d. AList.update (cd_name d) d) [d. ClassDef d \<leftarrow> preorder t] []"
  by (simp add: visit_preorder classes_fold_store ASTVisitor_def)

lemma function_names_visit:
  "set (map fst (functions (visit t ASTVisitor))) = {fd_name d |d. FunctionDef d \<in> set (preorder t)}"
proof -
  have "k \<in> set (map fst (functions (visit t ASTVisitor)))
        \<longleftrightarrow> k \<in> {fd_name d |d. FunctionDef d \<in> set (preorder t)}" for k
  proof -
    have "k \<in> set (map fst (functions (visit t ASTVisitor)))
          \<longleftrightarrow> map_of (functions (visit t ASTVisitor)) k \<noteq> None"
      by (simp add: map_of_eq_None_iff)
    also have "\<dots> \<longleftrightarrow> find (\<lambda>d. fd_name d = k) (rev [d. FunctionDef d \<leftarrow> preorder t]) \<noteq> None"
      by (simp add: functions_visit map_of_fold_update split: option.splits)
    also have "\<dots> \<longleftrightarrow> (\<exists>d \<in> set [d. FunctionDef d \<leftarrow> preorder t]. fd_name d = k)"
      unfolding find_None_iff set_rev by blast
    also have "\<dots> \<longleftrightarrow> k \<in> {fd_name d |d. FunctionDef d \<in> set (preorder t)}"
      by (auto split: node.splits)
    finally show ?thesis .
  qed
  then show ?thesis by blast
qed

lemma preorder_two_classes:
  "[d. FunctionDef d \<leftarrow> preorder two_classes] = [run_A, run_B]"
  by (simp add: two_classes_def ast_defs preorder.simps fields_nodes_def run_A_def run_B_def)

text \<open>
  C9 as the claim states it fails: the visitor has one dictionary of functions for the
  whole tree, whatever the scope of a definition. The method \<^verbatim>\<open>run\<close> of class \<^verbatim>\<open>A\<close> and
  the method \<^verbatim>\<open>run\<close> of class \<^verbatim>\<open>B\<close> are defined in different scopes, and the table keeps
  the second only.
\<close>

theorem C9_counterexample:
  "[d. FunctionDef d \<leftarrow> preorder two_classes] = [run_A, run_B]
   \<and> run_A \<noteq> run_B
   \<and> functions (visit two_classes ASTVisitor) = [(''run'', run_B)]"
proof (intro conjI)
  show "[d. FunctionDef d \<leftarrow> preorder two_classes] = [run_A, run_B]"
    by (rule preorder_two_classes)
  show "run_A \<noteq> run_B"
    by (simp add: run_A_def run_B_def ast_defs)
  show "functions (visit two_classes ASTVisitor) = [(''run'', run_B)]"
    by (simp add: functions_visit preorder_two_classes) (simp add: run_A_def run_B_def ast_defs)
qed

text \<open>
  C9, amended: the symbol table builder keeps one table of functions and one table of
  classes for the whole tree, not one per scope. Each table has at most one entry per
  name, and the entry of a name is the last definition of that name in the pre-order of
  the tree, in whatever scope it stands: a later definition replaces an earlier one of the
  same name in the same or in another scope. A function and a class of one name do not
  displace each other.
\<close>

theorem C9_symbol_tables:
  "distinct (map fst (functions (visit t ASTVisitor)))
   \<and> distinct (map fst (classes (visit t ASTVisitor)))
   \<and> map_of (functions (visit t ASTVisitor)) nm
       = find (\<lambda>d. fd_name d = nm) (rev [d. FunctionDef d \<leftarrow> preorder t])
   \<and> map_of (classes (visit t ASTVisitor)) nm
       = find (\<lambda>d. cd_name d = nm) (rev [d. ClassDef d \<leftarrow> preorder t])"
  by (simp add: functions_visit classes_visit distinct_fold_update map_of_fold_update
        split: option.splits)

theorem C9_symbol_tables_witness:
  "map_of (functions (visit two_classes ASTVisitor)) ''run'' = Some run_B
   \<and> map fst (classes (visit two_classes ASTVisitor)) = [''A'', ''B'']"
proof -
  have "[d. ClassDef d \<leftarrow> preorder two_classes]
        = [ast_ClassDef ''A'' [FunctionDef run_A], ast_ClassDef ''B'' [FunctionDef run_B]]"
    by (simp add: two_classes_def ast_defs preorder.simps fields_nodes_def run_A_def run_B_def)
  then have "map fst (classes (visit two_classes ASTVisitor)) = [''A'', ''B'']"
    by (simp add: classes_visit) (simp add: ast_defs)
  moreover have "find (\<lambda>d. fd_name d = ''run'') (rev [d. FunctionDef d \<leftarrow> preorder two_classes])
                 = Some run_B"
    by (simp add: preorder_two_classes) (simp add: run_B_def ast_defs)
  ultimately show ?thesis
    using C9_symbol_tables [of two_classes "''run''"] by simp
qed


section \<open>The analysers\<close>

lemma for_each_Inl:
  "(\<And>x. x \<in> set xs \<Longrightarrow> f x = Inl e) \<Longrightarrow> xs \<noteq> [] \<Longrightarrow> for_each f xs = Inl e"
  by (cases xs) auto

lemma key_iff: "k \<in> set (map fst d) \<longleftrightarrow> (\<exists>v. map_of d k = Some v)"
  using map_of_eq_None_iff [of d k] by auto

lemma keys_both_iff:
  "k \<in> set (keys_both d1 d2) \<longleftrightarrow> (\<exists>v1 v2. map_of d1 k = Some v1 \<and> map_of d2 k = Some v2)"
  unfolding keys_both_def set_filter using key_iff [of k d1] key_iff [of k d2] by blast

lemma analyze_changes2_common:
  assumes "k \<in> set (keys_both (functions (old_visitor a)) (functions (new_visitor a)))"
  shows "analyze_changes2 lib a = Inl AttributeError"
proof -
  have "for_each
          (\<lambda>func_name. case analyze_function_change2 a func_name of
                            Inl e \<Rightarrow> Inl e
                          | Inr function_change \<Rightarrow>
                              Inr (if has_significant_changes function_change
                                   then [function_change] else []))
          (keys_both (functions (old_visitor a)) (functions (new_visitor a)))
        = Inl AttributeError"
    using assms by (intro for_each_Inl) (auto simp: analyze_function_change2_def)
  then show ?thesis by (simp add: analyze_changes2_def)
qed

lemma common_function_name:
  assumes "FunctionDef d1 \<in> set (preorder old_tree)" "FunctionDef d2 \<in> set (preorder new_tree)"
    and "fd_name d1 = fd_name d2"
  shows "fd_name d1 \<in> set (keys_both (functions (visit old_tree ASTVisitor))
                              (functions (visit new_tree ASTVisitor)))"
proof -
  have "fd_name d1 \<in> set (map fst (functions (visit old_tree ASTVisitor)))"
    unfolding function_names_visit using assms(1) by blast
  moreover have "fd_name d1 \<in> set (map fst (functions (visit new_tree ASTVisitor)))"
    unfolding function_names_visit using assms(2,3) by force
  ultimately show ?thesis by (simp add: keys_both_def)
qed

text \<open>
  C2: in ast2.py, when the old and the new text both define a function of one name,
  \<^verbatim>\<open>analyze_changes\<close> raises an exception (the attribute error of the method that the file
  never defines) and returns no report. The texts are parsed by \<open>parse\<close>; a function is
  defined in a text when its definition is a node of the tree.
\<close>

theorem C2_ast2_raises:
  assumes "parse old_text = Inr old_tree" and "parse new_text = Inr new_tree"
    and "FunctionDef d1 \<in> set (preorder old_tree)"
    and "FunctionDef d2 \<in> set (preorder new_tree)"
    and "fd_name d1 = fd_name d2"
  shows "\<exists>a. CodeChangeAnalyzer2 parse old_text new_text = Inr a
             \<and> analyze_changes2 lib a = Inl AttributeError"
proof -
  let ?a = "\<lparr>old_ast = old_tree, new_ast = new_tree,
             old_visitor = visit old_tree ASTVisitor,
             new_visitor = visit new_tree ASTVisitor,
             old_code = old_text, new_code = new_text\<rparr>"
  have "CodeChangeAnalyzer2 parse old_text new_text = Inr ?a"
    by (simp add: CodeChangeAnalyzer2_def assms(1,2))
  moreover have "fd_name d1 \<in> set (keys_both (functions (old_visitor ?a)) (functions (new_visitor ?a)))"
    using common_function_name [OF assms(3,4,5)] by simp
  then have "analyze_changes2 lib ?a = Inl AttributeError"
    by (rule analyze_changes2_common)
  ultimately show ?thesis by blast
qed

lemma preorder_module_f: "preorder module_f = [module_f, FunctionDef (nested_def ''f''),
    ast_arguments [] [], ast_Pass]"
  by (simp add: module_f_def nested_def_def ast_defs preorder.simps fields_nodes_def)

theorem C2_ast2_raises_witness:
  "parse_f ''def f(): pass'' = Inr module_f
   \<and> FunctionDef (nested_def ''f'') \<in> set (preorder module_f)
   \<and> (\<exists>a. CodeChangeAnalyzer2 parse_f ''def f(): pass'' ''def f(): pass'' = Inr a
          \<and> analyze_changes2 lib0 a = Inl AttributeError)"
proof -
  have p: "parse_f ''def f(): pass'' = Inr module_f"
    by (simp add: parse_f_def)
  have d: "FunctionDef (nested_def ''f'') \<in> set (preorder module_f)"
    by (simp add: preorder_module_f)
  have "\<exists>a. CodeChangeAnalyzer2 parse_f ''def f(): pass'' ''def f(): pass'' = Inr a
          \<and> analyze_changes2 lib0 a = Inl AttributeError"
    using p d by (intro C2_ast2_raises [where ?d1.0 = "nested_def ''f''"
          and ?d2.0 = "nested_def ''f''" and old_tree = module_f and new_tree = module_f]) simp_all
  with p d show ?thesis by blast
qed

lemma visit_module_f:
  "visit module_f ASTVisitor = \<lparr>functions = [(''f'', nested_def ''f'')], classes = []\<rparr>"
  by (simp add: visit_preorder preorder_module_f ASTVisitor_def)
     (simp add: module_f_def nested_def_def ast_defs)

lemma analyze_changes_module_f:
  "analyze_changes md5 (analyzer_of module_f module_f) =
     Inr \<lparr>added_functions = [], removed_functions = [],
          function_changes =
            [\<lparr>name = ''f'', signature_change = False,
              body_change = \<lparr>structural = False, minor_edit = False, rearrangement = False\<rparr>,
              nested_function_change = False\<rparr>],
          class_method_changes = []\<rparr>"
proof -
  have n: "\<not> has_nested_function_change (nested_def ''f'') (nested_def ''f'')"
    by (simp add: has_nested_function_change_def)
  have s: "\<not> has_signature_change (nested_def ''f'') (nested_def ''f'')"
    by (simp add: has_signature_change_def compare_py_norm(1))
  have b: "analyze_body_change md5 (fd_body (nested_def ''f'')) (fd_body (nested_def ''f''))
           = \<lparr>structural = False, minor_edit = False, rearrangement = False\<rparr>"
    by (simp add: analyze_body_change_def ChangeType_def)
  show ?thesis
    by (simp add: analyze_changes_def analyzer_of_def visit_module_f keys_both_def keys_minus_def
          analyze_function_change_def getitem_def n s b analyze_class_method_changes_def)
qed

text \<open>
  C5 at the text \<^verbatim>\<open>def f(): pass\<close> compared against itself. The analyser of astTest.py
  lists the function \<^verbatim>\<open>f\<close> among the function changes, with no change flagged: it
  appends the record of every matched function. The analyser of ast2.py raises the
  attribute error and returns no report.
\<close>

theorem C5_self_comparison:
  "(\<exists>a. CodeChangeAnalyzer parse_f ''def f(): pass'' ''def f(): pass'' = Inr a
       \<and> analyze_changes md5 a =
           Inr \<lparr>added_functions = [], removed_functions = [],
                function_changes =
                  [\<lparr>name = ''f'', signature_change = False,
                    body_change = \<lparr>structural = False, minor_edit = False, rearrangement = False\<rparr>,
                    nested_function_change = False\<rparr>],
                class_method_changes = []\<rparr>)
   \<and> (\<exists>a. CodeChangeAnalyzer2 parse_f ''def f(): pass'' ''def f(): pass'' = Inr a
          \<and> analyze_changes2 lib a = Inl AttributeError)"
proof
  show "\<exists>a. CodeChangeAnalyzer parse_f ''def f(): pass'' ''def f(): pass'' = Inr a
       \<and> analyze_changes md5 a =
           Inr \<lparr>added_functions = [], removed_functions = [],
                function_changes =
                  [\<lparr>name = ''f'', signature_change = False,
                    body_change = \<lparr>structural = False, minor_edit = False, rearrangement = False\<rparr>,
                    nested_function_change = False\<rparr>],
                class_method_changes = []\<rparr>"
    using analyze_changes_module_f [of md5] by (simp add: CodeChangeAnalyzer_def parse_f_def)
  let ?a = "\<lparr>old_ast = module_f, new_ast = module_f,
             old_visitor = visit module_f ASTVisitor,
             new_visitor = visit module_f ASTVisitor,
             old_code = ''def f(): pass'', new_code = ''def f(): pass''\<rparr>"
  have "''f'' \<in> set (keys_both (functions (old_visitor ?a)) (functions (new_visitor ?a)))"
    by (simp add: visit_module_f keys_both_def)
  then have "analyze_changes2 lib ?a = Inl AttributeError"
    by (rule analyze_changes2_common)
  then show "\<exists>a. CodeChangeAnalyzer2 parse_f ''def f(): pass'' ''def f(): pass'' = Inr a
          \<and> analyze_changes2 lib a = Inl AttributeError"
    by (simp add: CodeChangeAnalyzer2_def parse_f_def)
qed


section \<open>Which method pairs are reported\<close>

lemma for_each_set:
  assumes "\<And>x. x \<in> set xs \<Longrightarrow> \<exists>ys. f x = Inr ys"
  shows "\<exists>zs. for_each f xs = Inr zs
              \<and> set zs = {y. \<exists>x ys. x \<in> set xs \<and> f x = Inr ys \<and> y \<in> set ys}"
  using assms
proof (induction xs)
  case Nil
  show ?case by simp
next
  case (Cons x xs)
  from Cons.prems obtain ys where ys: "f x = Inr ys" by auto
  from Cons obtain zs where zs: "for_each f xs = Inr zs"
    "set zs = {y. \<exists>x ys. x \<in> set xs \<and> f x = Inr ys \<and> y \<in> set ys}"
    by auto
  have "for_each f (x # xs) = Inr (ys @ zs)" by (simp add: ys zs)
  moreover have "set (ys @ zs) = {y. \<exists>x' ys'. x' \<in> set (x # xs) \<and> f x' = Inr ys' \<and> y \<in> set ys'}"
    using ys zs(2) by auto
  ultimately show ?case by blast
qed

lemma getitem_Some: "map_of d k = Some v \<Longrightarrow> getitem d k = Inr v"
  by (simp add: getitem_def)

lemma analyze_method_change_Inr:
  assumes "map_of old_methods mname = Some om" "map_of new_methods mname = Some nm"
  shows "analyze_method_change md5 cname old_methods new_methods mname =
           Inr (if has_signature_change om nm
                   \<or> analyze_body_change md5 (fd_body om) (fd_body nm) \<noteq> ChangeType
                then [\<lparr>class_name = cname, method_name = mname,
                       method_signature_change = has_signature_change om nm,
                       method_body_change = analyze_body_change md5 (fd_body om) (fd_body nm)\<rparr>]
                else [])"
  by (simp add: analyze_method_change_def getitem_Some [OF assms(1)] getitem_Some [OF assms(2)]
        Let_def)

lemma methods_round:
  "\<exists>zs. for_each (analyze_method_change md5 cname old_methods new_methods)
           (keys_both old_methods new_methods) = Inr zs
        \<and> set zs = {m. \<exists>om nm. class_name m = cname
                        \<and> map_of old_methods (method_name m) = Some om
                        \<and> map_of new_methods (method_name m) = Some nm
                        \<and> m = \<lparr>class_name = cname, method_name = method_name m,
                                method_signature_change = has_signature_change om nm,
                                method_body_change =
                                  analyze_body_change md5 (fd_body om) (fd_body nm)\<rparr>
                        \<and> (has_signature_change om nm
                            \<or> analyze_body_change md5 (fd_body om) (fd_body nm) \<noteq> ChangeType)}"
    (is "\<exists>zs. ?loop = Inr zs \<and> set zs = ?S")
proof -
  let ?f = "analyze_method_change md5 cname old_methods new_methods"
  let ?ks = "keys_both old_methods new_methods"
  have ok: "\<exists>ys. ?f k = Inr ys" if "k \<in> set ?ks" for k
    using that analyze_method_change_Inr unfolding keys_both_iff by blast
  from for_each_set [of ?ks ?f, OF ok] obtain zs where zs: "?loop = Inr zs"
    "set zs = {y. \<exists>x ys. x \<in> set ?ks \<and> ?f x = Inr ys \<and> y \<in> set ys}"
    by blast
  have "{y. \<exists>x ys. x \<in> set ?ks \<and> ?f x = Inr ys \<and> y \<in> set ys} = ?S"
  proof (intro set_eqI iffI; clarify)
    fix m k ys
    assume k: "k \<in> set ?ks" and f: "?f k = Inr ys" and m: "m \<in> set ys"
    from k obtain om nm where l: "map_of old_methods k = Some om" "map_of new_methods k = Some nm"
      unfolding keys_both_iff by blast
    from f m analyze_method_change_Inr [OF l, of md5 cname]
    show "\<exists>om nm. class_name m = cname
                        \<and> map_of old_methods (method_name m) = Some om
                        \<and> map_of new_methods (method_name m) = Some nm
                        \<and> m = \<lparr>class_name = cname, method_name = method_name m,
                                method_signature_change = has_signature_change om nm,
                                method_body_change =
                                  analyze_body_change md5 (fd_body om) (fd_body nm)\<rparr>
                        \<and> (has_signature_change om nm
                            \<or> analyze_body_change md5 (fd_body om) (fd_body nm) \<noteq> ChangeType)"
      using l by (auto split: if_splits)
  next
    fix m om nm
    assume l: "map_of old_methods (method_name m) = Some om"
      "map_of new_methods (method_name m) = Some nm"
      and m: "m = \<lparr>class_name = class_name m, method_name = method_name m,
                                method_signature_change = has_signature_change om nm,
                                method_body_change =
                                  analyze_body_change md5 (fd_body om) (fd_body nm)\<rparr>"
      and c: "has_signature_change om nm
                            \<or> analyze_body_change md5 (fd_body om) (fd_body nm) \<noteq> ChangeType"
      and cn: "cname = class_name m"
    have "method_name m \<in> set ?ks" unfolding keys_both_iff using l by blast
    moreover have "analyze_method_change md5 (class_name m) old_methods new_methods (method_name m)
                   = Inr [m]"
      using analyze_method_change_Inr [OF l, of md5 "class_name m"] c m by simp
    ultimately show "\<exists>x ys. x \<in> set ?ks
        \<and> analyze_method_change md5 (class_name m) old_methods new_methods x = Inr ys
        \<and> m \<in> set ys"
      by (intro exI [of _ "method_name m"] exI [of _ "[m]"]) simp
  qed
  with zs show ?thesis by simp
qed


lemma class_round:
  assumes "map_of (classes (old_visitor a)) cname = Some oc"
    and "map_of (classes (new_visitor a)) cname = Some nc"
  shows "\<exists>zs. (case getitem (classes (old_visitor a)) cname of
                  Inl e \<Rightarrow> Inl e
                | Inr old_class \<Rightarrow>
                    (case getitem (classes (new_visitor a)) cname of
                       Inl e \<Rightarrow> Inl e
                     | Inr new_class \<Rightarrow>
                         (let old_methods = class_methods old_class;
                              new_methods = class_methods new_class
                          in for_each (analyze_method_change md5 cname old_methods new_methods)
                               (keys_both old_methods new_methods)))) = Inr zs
        \<and> set zs = {m. \<exists>om nm. class_name m = cname
                        \<and> map_of (class_methods oc) (method_name m) = Some om
                        \<and> map_of (class_methods nc) (method_name m) = Some nm
                        \<and> m = \<lparr>class_name = cname, method_name = method_name m,
                                method_signature_change = has_signature_change om nm,
                                method_body_change =
                                  analyze_body_change md5 (fd_body om) (fd_body nm)\<rparr>
                        \<and> (has_signature_change om nm
                            \<or> analyze_body_change md5 (fd_body om) (fd_body nm) \<noteq> ChangeType)}"
  using methods_round [of md5 cname "class_methods oc" "class_methods nc"]
  by (simp add: getitem_Some [OF assms(1)] getitem_Some [OF assms(2)] Let_def)

text \<open>
  The method path of astTest.py filters. Its pairs are taken from the two dictionaries
  \<open>class_methods\<close> of a class present in both versions (every function definition below
  the class, the last of a name in the breadth-first walk). The analysis of the methods
  always returns, and a record is in its list exactly when it is the record of such a pair
  whose signature-change flag is true or whose body severity is not unchanged.
\<close>

lemma changed_methods_iff:
  "\<exists>ms. analyze_class_method_changes md5 a = Inr ms
      \<and> (\<forall>m. m \<in> set ms \<longleftrightarrow>
            (\<exists>oc nc om nm.
               map_of (classes (old_visitor a)) (class_name m) = Some oc
               \<and> map_of (classes (new_visitor a)) (class_name m) = Some nc
               \<and> map_of (class_methods oc) (method_name m) = Some om
               \<and> map_of (class_methods nc) (method_name m) = Some nm
               \<and> m = \<lparr>class_name = class_name m, method_name = method_name m,
                       method_signature_change = has_signature_change om nm,
                       method_body_change = analyze_body_change md5 (fd_body om) (fd_body nm)\<rparr>
               \<and> (has_signature_change om nm
                   \<or> analyze_body_change md5 (fd_body om) (fd_body nm) \<noteq> ChangeType)))"
proof -
  let ?F = "\<lambda>cname.
          case getitem (classes (old_visitor a)) cname of
            Inl e \<Rightarrow> Inl e
          | Inr old_class \<Rightarrow>
              (case getitem (classes (new_visitor a)) cname of
                 Inl e \<Rightarrow> Inl e
               | Inr new_class \<Rightarrow>
                   (let old_methods = class_methods old_class;
                        new_methods = class_methods new_class
                    in for_each (analyze_method_change md5 cname old_methods new_methods)
                         (keys_both old_methods new_methods)))"
  let ?cs = "keys_both (classes (old_visitor a)) (classes (new_visitor a))"
  let ?S = "\<lambda>oc nc cname. {m. \<exists>om nm. class_name m = cname
                        \<and> map_of (class_methods oc) (method_name m) = Some om
                        \<and> map_of (class_methods nc) (method_name m) = Some nm
                        \<and> m = \<lparr>class_name = cname, method_name = method_name m,
                                method_signature_change = has_signature_change om nm,
                                method_body_change =
                                  analyze_body_change md5 (fd_body om) (fd_body nm)\<rparr>
                        \<and> (has_signature_change om nm
                            \<or> analyze_body_change md5 (fd_body om) (fd_body nm) \<noteq> ChangeType)}"
  have round: "\<exists>zs. ?F cname = Inr zs \<and> set zs = ?S oc nc cname"
    if "map_of (classes (old_visitor a)) cname = Some oc"
      "map_of (classes (new_visitor a)) cname = Some nc" for cname oc nc
    using class_round [OF that, of md5] .
  have ok: "\<exists>ys. ?F cname = Inr ys" if "cname \<in> set ?cs" for cname
    using that round unfolding keys_both_iff by blast
  from for_each_set [of ?cs ?F, OF ok] obtain ms where ms: "for_each ?F ?cs = Inr ms"
    "set ms = {y. \<exists>x ys. x \<in> set ?cs \<and> ?F x = Inr ys \<and> y \<in> set ys}"
    by blast
  have "m \<in> set ms \<longleftrightarrow>
            (\<exists>oc nc om nm.
               map_of (classes (old_visitor a)) (class_name m) = Some oc
               \<and> map_of (classes (new_visitor a)) (class_name m) = Some nc
               \<and> map_of (class_methods oc) (method_name m) = Some om
               \<and> map_of (class_methods nc) (method_name m) = Some nm
               \<and> m = \<lparr>class_name = class_name m, method_name = method_name m,
                       method_signature_change = has_signature_change om nm,
                       method_body_change = analyze_body_change md5 (fd_body om) (fd_body nm)\<rparr>
               \<and> (has_signature_change om nm
                   \<or> analyze_body_change md5 (fd_body om) (fd_body nm) \<noteq> ChangeType))"
    (is "?L \<longleftrightarrow> ?R") for m
  proof
    assume ?L
    with ms(2) obtain cname ys where x: "cname \<in> set ?cs" "?F cname = Inr ys" "m \<in> set ys"
      by blast
    from x(1) obtain oc nc where l: "map_of (classes (old_visitor a)) cname = Some oc"
      "map_of (classes (new_visitor a)) cname = Some nc"
      unfolding keys_both_iff by blast
    from round [OF l] x(2) have "set ys = ?S oc nc cname" by simp
    with x(3) have "m \<in> ?S oc nc cname" by simp
    with l show ?R by blast
  next
    assume ?R
    then obtain oc nc om nm where l: "map_of (classes (old_visitor a)) (class_name m) = Some oc"
      "map_of (classes (new_visitor a)) (class_name m) = Some nc"
      and r: "map_of (class_methods oc) (method_name m) = Some om"
        "map_of (class_methods nc) (method_name m) = Some nm"
        "m = \<lparr>class_name = class_name m, method_name = method_name m,
                       method_signature_change = has_signature_change om nm,
                       method_body_change = analyze_body_change md5 (fd_body om) (fd_body nm)\<rparr>"
        "has_signature_change om nm
                   \<or> analyze_body_change md5 (fd_body om) (fd_body nm) \<noteq> ChangeType"
      by blast
    from round [OF l] obtain zs where zs: "?F (class_name m) = Inr zs"
      "set zs = ?S oc nc (class_name m)" by blast
    have "m \<in> ?S oc nc (class_name m)" using r by blast
    moreover have "class_name m \<in> set ?cs" unfolding keys_both_iff using l by blast
    ultimately show ?L using ms(2) zs by blast
  qed
  with ms(1) show ?thesis by (simp add: analyze_class_method_changes_def)
qed

text \<open>
  C1 at the text \<^verbatim>\<open>class A:\<close> \<^verbatim>\<open>def run(self): pass\<close> compared against itself. The
  function \<^verbatim>\<open>run\<close> is a matched pair with no change: the signature-change flag and the
  nested-definition flag are false and the body severity is unchanged. astTest.py lists
  the pair among the function changes all the same, because the loop over the matched
  functions appends every record; the method path filters the same pair out.
\<close>

theorem C1_unchanged_pair_listed:
  "analyze_changes md5 (analyzer_of (class_A run_A) (class_A run_A)) =
     Inr \<lparr>added_functions = [], removed_functions = [],
          function_changes =
            [\<lparr>name = ''run'', signature_change = False,
              body_change = \<lparr>structural = False, minor_edit = False, rearrangement = False\<rparr>,
              nested_function_change = False\<rparr>],
          class_method_changes = []\<rparr>"
proof -
  have p: "preorder (class_A run_A)
            = [class_A run_A, ClassDef (ast_ClassDef ''A'' [FunctionDef run_A]), FunctionDef run_A,
               ast_arguments [''self''] [], ast_arg ''self'', ast_Pass]"
    by (simp add: class_A_def run_A_def ast_defs preorder.simps fields_nodes_def)
  have v: "visit (class_A run_A) ASTVisitor
           = \<lparr>functions = [(''run'', run_A)],
              classes = [(''A'', ast_ClassDef ''A'' [FunctionDef run_A])]\<rparr>"
    by (simp add: visit_preorder p ASTVisitor_def)
       (simp add: class_A_def run_A_def ast_defs)
  have m: "class_methods (ast_ClassDef ''A'' [FunctionDef run_A]) = [(''run'', run_A)]"
    by (simp add: class_methods_def walk_def run_A_def ast_defs fields_nodes_def)
  have n: "\<not> has_nested_function_change run_A run_A"
    by (simp add: has_nested_function_change_def)
  have s: "\<not> has_signature_change run_A run_A"
    by (simp add: has_signature_change_def compare_py_norm(1))
  have b: "analyze_body_change md5 (fd_body run_A) (fd_body run_A)
           = \<lparr>structural = False, minor_edit = False, rearrangement = False\<rparr>"
    by (simp add: analyze_body_change_def ChangeType_def)
  have ov: "old_visitor (analyzer_of (class_A run_A) (class_A run_A))
            = \<lparr>functions = [(''run'', run_A)],
               classes = [(''A'', ast_ClassDef ''A'' [FunctionDef run_A])]\<rparr>"
    by (simp add: analyzer_of_def v)
  have nv: "new_visitor (analyzer_of (class_A run_A) (class_A run_A))
            = \<lparr>functions = [(''run'', run_A)],
               classes = [(''A'', ast_ClassDef ''A'' [FunctionDef run_A])]\<rparr>"
    by (simp add: analyzer_of_def v)
  have c: "analyze_class_method_changes md5 (analyzer_of (class_A run_A) (class_A run_A)) = Inr []"
    by (simp add: analyze_class_method_changes_def ov nv keys_both_def getitem_def m
          analyze_method_change_def s b ChangeType_def)
  show ?thesis
    by (simp add: analyze_changes_def c ov nv keys_both_def keys_minus_def
          analyze_function_change_def getitem_def n s b)
qed

end
